theory Spec2Isabelle
  imports
    Complex_Main
    "HOL-Library.Char_ord"
    "HOL-Library.List_Lexorder"
    "HOL-Library.Product_Lexorder"
    "HOL-Library.Option_ord"
begin

section \<open>Python string primitives\<close>

text \<open>
  Strings are lists of characters. The embedding covers ASCII text: \<open>str.lower\<close>,
  \<open>str.upper\<close> and \<open>str.strip\<close> are modelled on the ASCII letters and the ASCII
  white space, and a slice \<open>s[:n]\<close> counts characters.
\<close>

definition newline :: char where
  "newline = CHR 0x0A"

definition dquote :: char where
  "dquote = CHR 0x22"

definition lower_char :: "char \<Rightarrow> char" where
  "lower_char c =
     (case map_of (zip ''ABCDEFGHIJKLMNOPQRSTUVWXYZ'' ''abcdefghijklmnopqrstuvwxyz'') c of
        None \<Rightarrow> c | Some d \<Rightarrow> d)"

definition upper_char :: "char \<Rightarrow> char" where
  "upper_char c =
     (case map_of (zip ''abcdefghijklmnopqrstuvwxyz'' ''ABCDEFGHIJKLMNOPQRSTUVWXYZ'') c of
        None \<Rightarrow> c | Some d \<Rightarrow> d)"

definition py_lower :: "string \<Rightarrow> string" where
  "py_lower s = map lower_char s"

definition py_upper :: "string \<Rightarrow> string" where
  "py_upper s = map upper_char s"

definition py_isspace :: "char \<Rightarrow> bool" where
  "py_isspace c = (c \<in> set [CHR '' '', CHR 0x09, CHR 0x0A, CHR 0x0B, CHR 0x0C, CHR 0x0D,
                              CHR 0x1C, CHR 0x1D, CHR 0x1E, CHR 0x1F])"

definition py_strip :: "string \<Rightarrow> string" where
  "py_strip s = rev (dropWhile py_isspace (rev (dropWhile py_isspace s)))"

text \<open>\<open>s.replace(a, b)\<close> for one-character \<open>a\<close> and \<open>b\<close>.\<close>

definition py_replace :: "char \<Rightarrow> char \<Rightarrow> string \<Rightarrow> string" where
  "py_replace a b s = map (\<lambda>c. if c = a then b else c) s"

text \<open>\<open>sep.join(parts)\<close>.\<close>

fun py_join :: "string \<Rightarrow> string list \<Rightarrow> string" where
  "py_join sep [] = []"
| "py_join sep [p] = p"
| "py_join sep (p # q # ps) = p @ sep @ py_join sep (q # ps)"

text \<open>
  \<open>s.split(sep)\<close> for a one-character separator: the pieces between the separators, so
  the result has one piece more than \<open>s\<close> has separators, and \<open>''.split(',')\<close> is \<open>['']\<close>.
\<close>

fun py_split :: "char \<Rightarrow> string \<Rightarrow> string list" where
  "py_split sep [] = [[]]"
| "py_split sep (c # s) =
     (if c = sep then [] # py_split sep s
      else (case py_split sep s of
              [] \<Rightarrow> [[c]]
            | p # ps \<Rightarrow> (c # p) # ps))"

text \<open>\<open>needle in s\<close> for strings.\<close>

fun py_in :: "string \<Rightarrow> string \<Rightarrow> bool" where
  "py_in q [] = (q = [])"
| "py_in q (c # s) = (take (length q) (c # s) = q \<or> py_in q s)"

text \<open>\<open>str(n)\<close> for an integer, as the f-strings render it.\<close>

definition digit_char :: "nat \<Rightarrow> char" where
  "digit_char d = ''0123456789'' ! (d mod 10)"

function str_nat :: "nat \<Rightarrow> string" where
  "str_nat n = (if n < 10 then [digit_char n] else str_nat (n div 10) @ [digit_char (n mod 10)])"
  by pat_completeness auto
termination
  by (relation "measure id") auto

declare str_nat.simps [simp del]

definition str_int :: "int \<Rightarrow> string" where
  "str_int i = (if i < 0 then CHR ''-'' # str_nat (nat (- i)) else str_nat (nat i))"

text \<open>
  A float is represented by the rational number it denotes. \<open>format(x, '.2f')\<close> rounds
  the magnitude to the nearest hundredth, ties to the even neighbour, and prints the sign
  of \<open>x\<close>, the integer part, a dot and two digits.
\<close>

definition round_half_even :: "rat \<Rightarrow> int" where
  "round_half_even x =
     (let f = \<lfloor>x\<rfloor>; d = x - of_int f
      in if d < 1 / 2 then f
         else if 1 / 2 < d then f + 1
         else if even f then f else f + 1)"

definition format_2f :: "rat \<Rightarrow> string" where
  "format_2f x =
     (let n = nat (round_half_even (\<bar>x\<bar> * 100))
      in (if x < 0 then ''-'' else '''') @ str_nat (n div 100) @ ''.''
         @ [digit_char (n mod 100 div 10), digit_char (n mod 10)])"

section \<open>Errors\<close>

datatype py_error = IntegrityError | ZeroDivisionError | OverflowError

datatype http_error = HTTP_404 string | HTTP_422 | HTTP_500 string

text \<open>
  The integers that an SQLite \<open>INTEGER\<close> holds: 64 bits, signed. Binding a Python
  integer outside this range to a statement raises \<open>OverflowError\<close> before the statement
  runs.
\<close>

definition int64 :: "int \<Rightarrow> bool" where
  "int64 i = (- (2 ^ 63) \<le> i \<and> i < 2 ^ 63)"

text \<open>\<open>a / b\<close> on Python integers.\<close>

definition py_truediv :: "nat \<Rightarrow> nat \<Rightarrow> py_error + rat" where
  "py_truediv a b = (if b = 0 then Inl ZeroDivisionError else Inr (of_nat a / of_nat b))"

section \<open>Storage\<close>

text \<open>
  Modelled from the spec: the table declarations (\<open>src/db/schema.sql\<close>) are not part
  of the sources. Section 6 of the specification gives the columns of \<open>components\<close> and
  \<open>circuit_bom\<close> and names \<open>id\<close> as the primary key of each; no other constraint is
  stated. A table is the list of its rows in insertion order. Of the columns, the records
  keep those that the services below read or write. An integer cell of a stored row holds
  a 64-bit integer (\<open>int64\<close>), read back as a Python integer; \<open>is_critical\<close> holds the
  truth value of the stored 0 or 1; \<open>confidence_score\<close>, a float, is the rational number
  it denotes.
\<close>

record component =
  comp_id :: string
  comp_type :: string
  comp_name :: string
  comp_value :: "string option"
  package :: "string option"
  part_number :: "string option"
  quantity_in_stock :: int
  minimum_quantity :: int
  updated_at :: string

record bom_item =
  bom_id :: string
  circuit_id :: string
  component_type :: string
  component_value :: string
  quantity :: int
  reference_designator :: "string option"
  is_critical :: bool
  confidence_score :: rat

text \<open>
  \<open>INSERT\<close> into a table whose primary key is \<open>id\<close>: the parameters are bound first,
  which raises \<open>OverflowError\<close> for an integer outside 64 bits; then the statement runs and
  raises \<open>IntegrityError\<close> when the id is already there.
\<close>

definition insert_component :: "component list \<Rightarrow> component \<Rightarrow> py_error + component list" where
  "insert_component tbl c =
     (if int64 (quantity_in_stock c) \<and> int64 (minimum_quantity c)
      then if list_ex (\<lambda>r. comp_id r = comp_id c) tbl then Inl IntegrityError
           else Inr (tbl @ [c])
      else Inl OverflowError)"

definition insert_bom_item :: "bom_item list \<Rightarrow> bom_item \<Rightarrow> py_error + bom_item list" where
  "insert_bom_item tbl b =
     (if int64 (quantity b)
      then if list_ex (\<lambda>r. bom_id r = bom_id b) tbl then Inl IntegrityError
           else Inr (tbl @ [b])
      else Inl OverflowError)"

section \<open>The \<open>LIKE\<close> operator\<close>

text \<open>
  \<open>like_match p s\<close> is \<open>s LIKE p\<close> on text: \<open>%\<close> in the pattern stands for any run
  of characters, \<open>_\<close> for any one character, and every other character for itself up to
  the case of ASCII letters. On \<open>NULL\<close> the operator yields \<open>NULL\<close>, which neither a
  \<open>WHERE\<close> clause nor a \<open>CASE WHEN\<close> accepts.
\<close>

fun like_match :: "string \<Rightarrow> string \<Rightarrow> bool" where
  "like_match [] [] = True"
| "like_match [] (c # s) = False"
| "like_match (p # ps) [] = (p = CHR ''%'' \<and> like_match ps [])"
| "like_match (p # ps) (c # s) =
     (if p = CHR ''%'' then like_match ps (c # s) \<or> like_match (p # ps) s
      else (p = CHR ''_'' \<or> lower_char p = lower_char c) \<and> like_match ps s)"

definition sql_like :: "string option \<Rightarrow> string \<Rightarrow> bool" where
  "sql_like v p = (case v of None \<Rightarrow> False | Some s \<Rightarrow> like_match p s)"

section \<open>Component inventory service\<close>

text \<open>
  \<open>search_components\<close>: the rows one of whose value, name and part number is
  \<open>LIKE %query%\<close>, ordered by the \<open>CASE\<close> rank, then type, then value. Text is
  compared byte by byte and \<open>NULL\<close> sorts first. Rows that agree on the whole key come
  in an order that SQL leaves open; here they keep the order of the table.
\<close>

definition search_rank :: "string \<Rightarrow> component \<Rightarrow> nat" where
  "search_rank query c =
     (if comp_value c = Some query then 1
      else if sql_like (comp_value c) (query @ ''%'') then 2
      else if sql_like (Some (comp_name c)) (query @ ''%'') then 3
      else 4)"

definition search_components :: "component list \<Rightarrow> string \<Rightarrow> component list" where
  "search_components tbl query =
     (let pattern = ''%'' @ query @ ''%''
      in sort_key (\<lambda>c. (search_rank query c, comp_type c, comp_value c))
           (filter (\<lambda>c. sql_like (comp_value c) pattern
                        \<or> sql_like (Some (comp_name c)) pattern
                        \<or> sql_like (part_number c) pattern) tbl))"

definition get_component :: "component list \<Rightarrow> string \<Rightarrow> component option" where
  "get_component tbl component_id = find (\<lambda>r. comp_id r = component_id) tbl"

text \<open>
  The \<open>+\<close> of SQL on two \<open>INTEGER\<close> operands: the integer sum when it fits 64 bits.
  When it does not, SQLite computes the sum in floating point and the result is a
  \<open>REAL\<close>; that outcome is \<open>None\<close> here.
\<close>

definition sql_add :: "int \<Rightarrow> int \<Rightarrow> int option" where
  "sql_add a b = (if int64 (a + b) then Some (a + b) else None)"

text \<open>
  The \<open>UPDATE\<close> statement of \<open>update_quantity\<close>: the new table and the number of rows
  changed; \<open>now\<close> is the value of \<open>datetime('now')\<close>. The table is \<open>None\<close> when the
  statement leaves a \<open>REAL\<close> in a stock cell, which the rows of this model do not
  represent; the row still counts as changed.
\<close>

fun sql_update_quantity ::
  "component list \<Rightarrow> string \<Rightarrow> int \<Rightarrow> string \<Rightarrow> component list option \<times> nat" where
  "sql_update_quantity [] now delta component_id = (Some [], 0)"
| "sql_update_quantity (r # rs) now delta component_id =
     (let (rs', n) = sql_update_quantity rs now delta component_id
      in if comp_id r = component_id
         then (case sql_add (quantity_in_stock r) delta of
                 None \<Rightarrow> (None, n + 1)
               | Some q \<Rightarrow>
                   (map_option ((#) (r\<lparr>quantity_in_stock := q, updated_at := now\<rparr>)) rs', n + 1))
         else (map_option ((#) r) rs', n))"

text \<open>
  \<open>update_quantity\<close>: binding \<open>delta\<close> raises \<open>OverflowError\<close> when it is outside 64
  bits, before any row is touched; otherwise the statement runs and the result is whether
  it changed a row.
\<close>

definition update_quantity ::
  "component list \<Rightarrow> string \<Rightarrow> string \<Rightarrow> int \<Rightarrow> py_error + component list option \<times> bool" where
  "update_quantity tbl now component_id delta =
     (if int64 delta
      then (let (tbl', rowcount) = sql_update_quantity tbl now delta component_id
            in Inr (tbl', rowcount > 0))
      else Inl OverflowError)"

section \<open>BOM manager service\<close>

definition get_bom :: "bom_item list \<Rightarrow> string \<Rightarrow> bom_item list" where
  "get_bom tbl cid =
     sort_key (\<lambda>b. (component_type b, component_value b)) (filter (\<lambda>b. circuit_id b = cid) tbl)"

text \<open>The request body of \<open>add_bom_item\<close>, with the defaults of the request model filled in.\<close>

record bom_request =
  req_component_type :: string
  req_component_value :: string
  req_quantity :: int
  req_reference_designator :: "string option"
  req_is_critical :: bool
  req_confidence_score :: rat

text \<open>
  \<open>add_bom_item\<close>: an \<open>INSERT\<close> that fails raises out of the function; one that succeeds
  has changed one row, so \<open>cursor.rowcount\<close> is 1.
\<close>

definition add_bom_item :: "bom_item list \<Rightarrow> string \<Rightarrow> bom_request \<Rightarrow> py_error + (bom_item list \<times> bool)" where
  "add_bom_item tbl cid item =
     (let item_id = cid @ ''_'' @ req_component_type item @ ''_'' @ req_component_value item
                    @ ''_'' @ str_int (req_quantity item)
      in case insert_bom_item tbl
                \<lparr>bom_id = item_id, circuit_id = cid,
                 component_type = req_component_type item,
                 component_value = req_component_value item,
                 quantity = req_quantity item,
                 reference_designator = req_reference_designator item,
                 is_critical = req_is_critical item,
                 confidence_score = req_confidence_score item\<rparr> of
           Inl e \<Rightarrow> Inl e
         | Inr tbl' \<Rightarrow> (let rowcount = (1::nat) in Inr (tbl', rowcount > 0)))"

record match_entry =
  e_bom_item :: bom_item
  e_component :: "component option"
  e_available :: bool
  quantity_needed :: int
  quantity_available :: int

record validation =
  total_items :: nat
  available_count :: nat
  missing_count :: nat
  completeness :: rat
  matches :: "match_entry list"
  missing :: "match_entry list"

text \<open>The loop of \<open>validate_bom\<close> over the fetched items, with its three accumulators.\<close>

fun validate_loop ::
  "component list \<Rightarrow> bom_item list \<Rightarrow> match_entry list \<Rightarrow> match_entry list \<Rightarrow> nat
   \<Rightarrow> match_entry list \<times> match_entry list \<times> nat" where
  "validate_loop inventory [] ms miss cnt = (ms, miss, cnt)"
| "validate_loop inventory (b # bs) ms miss cnt =
     (let search_results = search_components inventory (component_value b);
          matching = filter (\<lambda>c. comp_type c = component_type b) search_results
      in case matching of
           [] \<Rightarrow>
             validate_loop inventory bs ms
               (miss @ [\<lparr>e_bom_item = b, e_component = None, e_available = False,
                          quantity_needed = quantity b, quantity_available = 0\<rparr>]) cnt
         | c # _ \<Rightarrow>
             if quantity_in_stock c \<ge> quantity b
             then validate_loop inventory bs
                    (ms @ [\<lparr>e_bom_item = b, e_component = Some c, e_available = True,
                            quantity_needed = quantity b,
                            quantity_available = quantity_in_stock c\<rparr>]) miss (cnt + 1)
             else validate_loop inventory bs ms
                    (miss @ [\<lparr>e_bom_item = b, e_component = Some c, e_available = False,
                              quantity_needed = quantity b,
                              quantity_available = quantity_in_stock c\<rparr>]) cnt)"

definition validate_bom :: "component list \<Rightarrow> bom_item list \<Rightarrow> string \<Rightarrow> py_error + validation" where
  "validate_bom inventory tbl cid =
     (let bom_items = get_bom tbl cid;
          (ms, miss, cnt) = validate_loop inventory bom_items [] [] 0
      in case (if bom_items \<noteq> [] then py_truediv cnt (length bom_items) else Inr 0) of
           Inl e \<Rightarrow> Inl e
         | Inr ratio \<Rightarrow>
             Inr \<lparr>total_items = length bom_items, available_count = cnt,
                  missing_count = length miss, completeness = ratio,
                  matches = ms, missing = miss\<rparr>)"

record shopping_item =
  s_type :: string
  s_value :: string
  s_quantity :: int
  references :: "string list"

record shopping_list =
  missing_items :: "shopping_item list"
  total_missing :: nat

fun shopping_loop :: "match_entry list \<Rightarrow> shopping_item list \<Rightarrow> shopping_item list" where
  "shopping_loop [] acc = acc"
| "shopping_loop (item # rest) acc =
     shopping_loop rest
       (acc @ [\<lparr>s_type = component_type (e_bom_item item),
                 s_value = component_value (e_bom_item item),
                 s_quantity = quantity (e_bom_item item),
                 references =
                   (case reference_designator (e_bom_item item) of
                      None \<Rightarrow> []
                    | Some r \<Rightarrow> if r \<noteq> [] then py_split (CHR '','') r else [])\<rparr>])"

definition get_shopping_list :: "component list \<Rightarrow> bom_item list \<Rightarrow> string \<Rightarrow> py_error + shopping_list" where
  "get_shopping_list inventory tbl cid =
     (case validate_bom inventory tbl cid of
        Inl e \<Rightarrow> Inl e
      | Inr v \<Rightarrow>
          (let sl = shopping_loop (missing v) []
           in Inr \<lparr>missing_items = sl, total_missing = length sl\<rparr>))"

definition csv_header :: string where
  "csv_header = ''Type,Value,Quantity,Reference Designators,Critical,Confidence''"

fun export_loop :: "bom_item list \<Rightarrow> string list \<Rightarrow> string list" where
  "export_loop [] lines = lines"
| "export_loop (item # rest) lines =
     export_loop rest
       (lines @ [component_type item @ '','' @
                 component_value item @ '','' @
                 str_int (quantity item) @ '','' @
                 [dquote] @ (case reference_designator item of None \<Rightarrow> [] | Some r \<Rightarrow> r)
                   @ [dquote] @ '','' @
                 (if is_critical item then ''Yes'' else ''No'') @ '','' @
                 format_2f (confidence_score item)])"

definition export_bom_csv :: "bom_item list \<Rightarrow> string \<Rightarrow> string" where
  "export_bom_csv tbl cid = py_join [newline] (export_loop (get_bom tbl cid) [csv_header])"

section \<open>BOM routes\<close>

text \<open>\<open>str(e)\<close> for the exceptions above.\<close>

definition error_text :: "py_error \<Rightarrow> string" where
  "error_text e =
     (case e of IntegrityError \<Rightarrow> ''UNIQUE constraint failed: circuit_bom.id''
              | ZeroDivisionError \<Rightarrow> ''division by zero''
              | OverflowError \<Rightarrow> ''Python int too large to convert to SQLite INTEGER'')"

text \<open>
  The constraints that the request model \<open>AddBOMItemRequest\<close> declares on the body:
  \<open>quantity > 0\<close> and \<open>0 \<le> confidence_score \<le> 1\<close>. A body that violates them is
  answered 422 before the route's function runs.
\<close>

definition valid_request :: "bom_request \<Rightarrow> bool" where
  "valid_request request =
     (0 < req_quantity request \<and> 0 \<le> req_confidence_score request
      \<and> req_confidence_score request \<le> 1)"

definition add_bom_item_route ::
  "bom_item list \<Rightarrow> string \<Rightarrow> bom_request \<Rightarrow> bom_item list \<times> (http_error + bool)" where
  "add_bom_item_route tbl cid request =
     (if valid_request request
      then (case add_bom_item tbl cid request of
              Inl e \<Rightarrow> (tbl, Inl (HTTP_500 (error_text e)))
            | Inr (tbl', success) \<Rightarrow>
                if \<not> success then (tbl', Inl (HTTP_500 ''Failed to add BOM item''))
                else (tbl', Inr True))
      else (tbl, Inl HTTP_422))"

definition export_bom_csv_route :: "bom_item list \<Rightarrow> string \<Rightarrow> http_error + string" where
  "export_bom_csv_route tbl cid =
     (let csv_content = export_bom_csv tbl cid
      in if csv_content = [] \<or> count_list csv_content newline \<le> 1
         then Inl (HTTP_404 (''No BOM found for circuit: '' @ cid))
         else Inr csv_content)"

section \<open>Inventory importer\<close>

definition type_map :: "(string \<times> string) list" where
  "type_map =
     [(''RESISTOR'', ''resistor''), (''RESISTORS'', ''resistor''),
      (''CAPACITOR'', ''capacitor''), (''CAPACITORS'', ''capacitor''),
      (''IC'', ''ic''), (''ICS'', ''ic''), (''IC '', ''ic''),
      (''TRANSISTOR'', ''transistor''), (''TRANSISTORS'', ''transistor''),
      (''DIODE'', ''diode''), (''DIODES'', ''diode''),
      (''POT'', ''potentiometer''), (''POTS'', ''potentiometer''),
      (''POTENTIOMETER'', ''potentiometer''), (''POTENTIOMETERS'', ''potentiometer''),
      (''HARDWARE'', ''hardware''), (''HARDWARE '', ''hardware''),
      (''SWITCH'', ''switch''), (''LED'', ''led''), (''JACK'', ''jack'')]"

text \<open>
  A cell of the parsed CSV that holds text, or a number when the parser read the whole
  column as numbers. \<open>normalize_type\<close> calls \<open>strip\<close> on the cell, which a number does
  not have: \<open>AttributeError\<close>.
\<close>

datatype csv_cell = Text string | Number rat

datatype import_error = AttributeError

definition normalize_type :: "csv_cell \<Rightarrow> import_error + string" where
  "normalize_type category =
     (case category of
        Number _ \<Rightarrow> Inl AttributeError
      | Text s \<Rightarrow>
          (let normalized = py_upper (py_strip s)
           in Inr (case map_of type_map normalized of None \<Rightarrow> ''other'' | Some t \<Rightarrow> t)))"

definition clean :: "string \<Rightarrow> string" where
  "clean s =
     py_replace (CHR ''.'') (CHR ''_'')
       (py_replace (CHR ''-'') (CHR ''_'')
          (py_replace (CHR ''/'') (CHR ''_'')
             (py_replace (CHR '' '') (CHR ''_'') (py_lower s))))"

definition generate_component_id :: "string \<Rightarrow> string \<Rightarrow> string \<Rightarrow> string" where
  "generate_component_id ctype val pkg =
     (let parts = [clean ctype];
          parts = (if val \<noteq> [] then parts @ [clean val] else parts);
          parts = (if pkg \<noteq> [] then parts @ [clean (take 20 pkg)] else parts)
      in py_join ''_'' parts)"

definition create_component_name :: "string \<Rightarrow> string \<Rightarrow> string" where
  "create_component_name subtype val =
     (if subtype \<noteq> [] \<and> val \<noteq> [] then py_strip subtype @ '' '' @ py_strip val
      else if subtype \<noteq> [] then py_strip subtype
      else if val \<noteq> [] then py_strip val
      else ''Unknown Component'')"

text \<open>
  A row of the parsed CSV: the three required cells are present (rows without them are
  dropped by the parser), the optional cells may be missing. \<open>Category\<close> is the cell as
  parsed. The other text cells are taken as the strings that \<open>str\<close> makes of them;
  \<open>Quantity\<close> and \<open>ReorderLevel\<close> are cells with finite numbers, taken as the integers
  that \<open>int\<close> makes of them.
\<close>

record csv_row =
  Category :: csv_cell
  SubType :: "string option"
  HumanReadableValue :: string
  Footprint :: "string option"
  Quantity :: int
  ReorderLevel :: "int option"
  MfrPartNumber :: "string option"

definition transform_row :: "string \<Rightarrow> csv_row \<Rightarrow> import_error + component" where
  "transform_row now row =
     (case normalize_type (Category row) of
        Inl e \<Rightarrow> Inl e
      | Inr ctype \<Rightarrow>
          (let subtype = (case SubType row of None \<Rightarrow> [] | Some s \<Rightarrow> s);
               val = HumanReadableValue row;
               name = create_component_name subtype val;
               pkg = (case Footprint row of None \<Rightarrow> [] | Some s \<Rightarrow> s);
               cid = generate_component_id ctype val pkg
           in Inr \<lparr>comp_id = cid, comp_type = ctype, comp_name = name, comp_value = Some val,
                   package = (if pkg \<noteq> [] then Some pkg else None),
                   part_number = MfrPartNumber row,
                   quantity_in_stock = Quantity row,
                   minimum_quantity = (case ReorderLevel row of None \<Rightarrow> 0 | Some n \<Rightarrow> n),
                   updated_at = now\<rparr>))"

text \<open>
  \<open>[self.transform_row(row) for _, row in df.iterrows()]\<close>: the first row that raises
  ends the comprehension, and the import with it.
\<close>

fun transform_rows :: "string \<Rightarrow> csv_row list \<Rightarrow> import_error + component list" where
  "transform_rows now [] = Inr []"
| "transform_rows now (row # rows) =
     (case transform_row now row of
        Inl e \<Rightarrow> Inl e
      | Inr c \<Rightarrow>
          (case transform_rows now rows of
             Inl e \<Rightarrow> Inl e
           | Inr cs \<Rightarrow> Inr (c # cs)))"

text \<open>
  The import loop: a row whose id is found in the table is skipped; otherwise it is
  inserted, and an insert that raises is caught and counted neither way.
\<close>

fun import_loop :: "component list \<Rightarrow> component list \<Rightarrow> nat \<Rightarrow> nat \<Rightarrow> component list \<times> nat \<times> nat" where
  "import_loop tbl [] inserted skipped = (tbl, inserted, skipped)"
| "import_loop tbl (cmp # rest) inserted skipped =
     (case get_component tbl (comp_id cmp) of
        Some _ \<Rightarrow> import_loop tbl rest inserted (skipped + 1)
      | None \<Rightarrow>
          (case insert_component tbl cmp of
             Inr tbl' \<Rightarrow> import_loop tbl' rest (inserted + 1) skipped
           | Inl _ \<Rightarrow> import_loop tbl rest inserted skipped))"

text \<open>
  The result of \<open>import_components\<close>: the keys \<open>inserted\<close> and \<open>skipped\<close> are absent
  in preview mode. The per-type counts (\<open>by_type\<close>), which only report on the parsed
  file, are left out.
\<close>

record import_result =
  preview :: bool
  inserted :: "nat option"
  skipped :: "nat option"
  total_components :: nat

definition import_components ::
  "component list \<Rightarrow> string \<Rightarrow> csv_row list \<Rightarrow> bool
   \<Rightarrow> import_error + component list \<times> import_result" where
  "import_components tbl now rows pv =
     (case transform_rows now rows of
        Inl e \<Rightarrow> Inl e
      | Inr components \<Rightarrow>
          if pv
          then Inr (tbl, \<lparr>preview = True, inserted = None, skipped = None,
                          total_components = length components\<rparr>)
          else (let (tbl', ins, sk) = import_loop tbl components 0 0
                in Inr (tbl', \<lparr>preview = False, inserted = Some ins, skipped = Some sk,
                                total_components = length components\<rparr>)))"

section \<open>The specification's formulas\<close>

text \<open>
  The definitions of this section follow the wording of the specification, for comparison
  with the functions above.
\<close>

definition spec_normalize :: "string \<Rightarrow> string" where
  "spec_normalize s =
     map (\<lambda>c. if c = CHR '' '' \<or> c = CHR ''/'' \<or> c = CHR ''.'' \<or> c = CHR ''-''
              then CHR ''_'' else lower_char c) s"

definition spec_component_id :: "string \<Rightarrow> string \<Rightarrow> string \<Rightarrow> string" where
  "spec_component_id ctype val pkg =
     py_join ''_'' [spec_normalize ctype, spec_normalize val, spec_normalize (take 20 pkg)]"

section \<open>Example data\<close>

text \<open>The 10k resistor of the test fixtures, 50 in stock.\<close>

definition stock_row :: component where
  "stock_row = \<lparr>comp_id = ''resistor_10k'', comp_type = ''resistor'', comp_name = ''Metal Film 10k'',
     comp_value = Some ''10k'', package = None, part_number = None, quantity_in_stock = 50,
     minimum_quantity = 10, updated_at = ''t0''\<rparr>"

text \<open>A request for two 10k resistors, and the row that adding it to circuit \<open>fuzz\<close> stores.\<close>

definition fuzz_request :: bom_request where
  "fuzz_request = \<lparr>req_component_type = ''resistor'', req_component_value = ''10k'',
     req_quantity = 2, req_reference_designator = Some ''R1,R2'', req_is_critical = False,
     req_confidence_score = 1\<rparr>"

definition fuzz_row :: bom_item where
  "fuzz_row = \<lparr>bom_id = ''fuzz_resistor_10k_2'', circuit_id = ''fuzz'',
     component_type = ''resistor'', component_value = ''10k'', quantity = 2,
     reference_designator = Some ''R1,R2'', is_critical = False, confidence_score = 1\<rparr>"

text \<open>The CSV row \<open>Category=RESISTOR, HumanReadableValue=10k, Quantity=50\<close>.\<close>

definition resistor_csv_row :: csv_row where
  "resistor_csv_row = \<lparr>Category = Text ''RESISTOR'', SubType = None, HumanReadableValue = ''10k'',
     Footprint = None, Quantity = 50, ReorderLevel = None, MfrPartNumber = None\<rparr>"

definition imported_row :: "string \<Rightarrow> component" where
  "imported_row now = \<lparr>comp_id = ''resistor_10k'', comp_type = ''resistor'', comp_name = ''10k'',
     comp_value = Some ''10k'', package = None, part_number = None, quantity_in_stock = 50,
     minimum_quantity = 0, updated_at = now\<rparr>"

text \<open>
  Section 4.2 of the specification, steps 2 to 5 of \<open>validate\<close>: the first search result
  for the item's value among those of the item's type, and whether its stock covers the
  item's quantity.
\<close>

definition top_hit :: "component list \<Rightarrow> bom_item \<Rightarrow> component option" where
  "top_hit inventory b =
     (case filter (\<lambda>c. comp_type c = component_type b)
             (search_components inventory (component_value b)) of
        [] \<Rightarrow> None
      | c # _ \<Rightarrow> Some c)"

definition is_match :: "component list \<Rightarrow> bom_item \<Rightarrow> bool" where
  "is_match inventory b =
     (case top_hit inventory b of None \<Rightarrow> False | Some c \<Rightarrow> quantity b \<le> quantity_in_stock c)"

definition stock_of :: "component option \<Rightarrow> int" where
  "stock_of hit = (case hit of None \<Rightarrow> 0 | Some c \<Rightarrow> quantity_in_stock c)"

text \<open>
  The references of a shopping-list entry as the specification words them: the reference
  designator split on comma, or the empty list if it is null.
\<close>

definition spec_references :: "string option \<Rightarrow> string list" where
  "spec_references rd = (case rd of None \<Rightarrow> [] | Some r \<Rightarrow> py_split (CHR '','') r)"

text \<open>The same with the empty designator treated like a missing one.\<close>

definition references_of :: "string option \<Rightarrow> string list" where
  "references_of rd =
     (case rd of None \<Rightarrow> [] | Some r \<Rightarrow> if r = [] then [] else py_split (CHR '','') r)"

definition shopping_entry :: "bom_item \<Rightarrow> shopping_item" where
  "shopping_entry b =
     \<lparr>s_type = component_type b, s_value = component_value b, s_quantity = quantity b,
      references = references_of (reference_designator b)\<rparr>"

text \<open>A BOM line without reference designators, stored as the empty string.\<close>

definition bare_row :: bom_item where
  "bare_row = \<lparr>bom_id = ''fuzz_capacitor_100nF_3'', circuit_id = ''fuzz'',
     component_type = ''capacitor'', component_value = ''100nF'', quantity = 3,
     reference_designator = Some '''', is_critical = False, confidence_score = 88 / 100\<rparr>"

text \<open>
  A data line of the CSV export as the specification describes it: type, value and
  quantity, the reference designators in double quotes, \<open>Yes\<close> or \<open>No\<close> for
  \<open>is_critical\<close>, and the confidence to two decimal places.
\<close>

definition csv_line :: "bom_item \<Rightarrow> string" where
  "csv_line b =
     component_type b @ '','' @ component_value b @ '','' @ str_int (quantity b) @ '','' @
     [dquote] @ (case reference_designator b of None \<Rightarrow> [] | Some r \<Rightarrow> r) @ [dquote] @ '','' @
     (if is_critical b then ''Yes'' else ''No'') @ '','' @ format_2f (confidence_score b)"

text \<open>
  Section 4.1 of the specification, \<open>search\<close>: a component is found when its value, name
  or part number contains the query as a substring.
\<close>

definition spec_found :: "string \<Rightarrow> component \<Rightarrow> bool" where
  "spec_found query c =
     ((case comp_value c of None \<Rightarrow> False | Some v \<Rightarrow> py_in query v)
      \<or> py_in query (comp_name c)
      \<or> (case part_number c of None \<Rightarrow> False | Some p \<Rightarrow> py_in query p))"

text \<open>Equality of strings up to the case of ASCII letters.\<close>

definition same_nocase :: "string \<Rightarrow> string \<Rightarrow> bool" where
  "same_nocase s t = (map lower_char s = map lower_char t)"

text \<open>Three more components around the value 10k: a 10k5, a pot named 10K, a 510k.\<close>

definition prefix_row :: component where
  "prefix_row = stock_row\<lparr>comp_id := ''resistor_10k5'', comp_name := ''Metal Film 10k5'',
     comp_value := Some ''10k5''\<rparr>"

definition name_row :: component where
  "name_row = stock_row\<lparr>comp_id := ''potentiometer_b_lin'', comp_type := ''potentiometer'',
     comp_name := ''10K linear pot'', comp_value := Some ''B-lin''\<rparr>"

definition other_row :: component where
  "other_row = stock_row\<lparr>comp_id := ''resistor_510k'', comp_name := ''Carbon 510k'',
     comp_value := Some ''510k''\<rparr>"

text \<open>
  Two more CSV rows: one whose quantity, \<open>2^63\<close>, is outside 64 bits, and one from a
  file whose \<open>Category\<close> column the parser read as numbers.
\<close>

definition huge_csv_row :: csv_row where
  "huge_csv_row = \<lparr>Category = Text ''RESISTOR'', SubType = None, HumanReadableValue = ''22k'',
     Footprint = None, Quantity = 9223372036854775808, ReorderLevel = None,
     MfrPartNumber = None\<rparr>"

definition numeric_csv_row :: csv_row where
  "numeric_csv_row = \<lparr>Category = Number 7, SubType = None, HumanReadableValue = ''10k'',
     Footprint = None, Quantity = 50, ReorderLevel = None, MfrPartNumber = None\<rparr>"

text \<open>The rows whose integers the \<open>INSERT\<close> of the importer can bind.\<close>

definition storable :: "component \<Rightarrow> bool" where
  "storable c = (int64 (quantity_in_stock c) \<and> int64 (minimum_quantity c))"

section \<open>Component ids of the importer\<close>

lemma lower_char_cases:
  "lower_char c = CHR '' '' \<longleftrightarrow> c = CHR '' ''"
  "lower_char c = CHR ''/'' \<longleftrightarrow> c = CHR ''/''"
  "lower_char c = CHR ''-'' \<longleftrightarrow> c = CHR ''-''"
  "lower_char c = CHR ''.'' \<longleftrightarrow> c = CHR ''.''"
  by (auto simp: lower_char_def split: option.splits if_splits)

lemma clean_eq_spec_normalize: "clean s = spec_normalize s"
  by (induction s) (auto simp: clean_def spec_normalize_def py_replace_def py_lower_def lower_char_cases)

text \<open>
  C9, as stated: the id is always the three normalized segments joined by underscores.
  This fails for a row without a footprint: the package segment is left out, not joined
  as an empty segment.
\<close>

theorem generate_component_id_counterexample:
  "generate_component_id ''resistor'' ''10k'' '''' = ''resistor_10k''
   \<and> spec_component_id ''resistor'' ''10k'' '''' = ''resistor_10k_''
   \<and> generate_component_id ''resistor'' ''10k'' '''' \<noteq> spec_component_id ''resistor'' ''10k'' ''''"
  by (simp add: generate_component_id_def spec_component_id_def clean_def spec_normalize_def
      py_replace_def py_lower_def lower_char_def)

text \<open>
  C9, amended: the id is the normalized type, followed by an underscore and the normalized
  value when the value is not empty, followed by an underscore and the normalized first 20
  characters of the package when the package is not empty; normalizing lowercases and
  replaces each space, slash, dot and hyphen by an underscore. When value and package are
  both non-empty this is the three normalized segments joined by underscores.
\<close>

theorem generate_component_id_amended:
  "generate_component_id t v p =
     spec_normalize t @ (if v = [] then [] else ''_'' @ spec_normalize v)
       @ (if p = [] then [] else ''_'' @ spec_normalize (take 20 p))
   \<and> (v \<noteq> [] \<and> p \<noteq> [] \<longrightarrow> generate_component_id t v p = spec_component_id t v p)"
  by (simp add: generate_component_id_def spec_component_id_def clean_eq_spec_normalize Let_def)

theorem generate_component_id_amended_witness:
  "generate_component_id ''resistor'' ''10k'' ''DIP-8'' = ''resistor_10k_dip_8''
   \<and> spec_component_id ''resistor'' ''10k'' ''DIP-8'' = ''resistor_10k_dip_8''"
  using generate_component_id_amended [of "''resistor''" "''10k''" "''DIP-8''"]
  by (simp add: spec_component_id_def spec_normalize_def lower_char_def)

section \<open>Quantity updates\<close>

lemma get_component_Cons:
  "get_component (r # rs) j = (if comp_id r = j then Some r else get_component rs j)"
  by (simp add: get_component_def)

lemma get_component_Nil: "get_component [] j = None"
  by (simp add: get_component_def)

lemma get_component_None_iff: "get_component tbl i = None \<longleftrightarrow> i \<notin> set (map comp_id tbl)"
  by (induction tbl) (auto simp: get_component_Cons get_component_Nil)



lemma update_quantity_out_of_range:
  "update_quantity [stock_row] ''t1'' ''resistor_10k'' 9223372036854775808 = Inl OverflowError"
  "update_quantity [stock_row] ''t1'' ''ghost'' 9223372036854775808 = Inl OverflowError"
  "update_quantity [stock_row] ''t1'' ''resistor_10k'' 9223372036854775807 = Inr (None, True)"
  by (simp_all add: update_quantity_def int64_def sql_add_def stock_row_def)



section \<open>Adding BOM items\<close>

lemma str_nat_2: "str_nat 2 = ''2''"
  by (simp add: str_nat.simps [of 2] digit_char_def)

lemma add_bom_item_first:
  "add_bom_item [] ''fuzz'' fuzz_request = Inr ([fuzz_row], True)"
  by (simp add: add_bom_item_def insert_bom_item_def fuzz_request_def fuzz_row_def str_int_def
      str_nat_2 int64_def)

lemma add_bom_item_returned:
  "add_bom_item tbl cid item = Inr (tbl', ok) \<Longrightarrow>
     int64 (req_quantity item)
     \<and> list_ex (\<lambda>r. bom_id r = cid @ ''_'' @ req_component_type item @ ''_''
                               @ req_component_value item @ ''_'' @ str_int (req_quantity item)) tbl'"
  by (auto simp: add_bom_item_def insert_bom_item_def Let_def split: if_splits)

text \<open>
  C6, as stated: re-adding the same item returns a false flag instead of raising. Adding
  the request to an empty table stores its row; adding it again raises the integrity
  error, which is not a returned flag.
\<close>

theorem add_bom_item_counterexample:
  "add_bom_item [] ''fuzz'' fuzz_request = Inr ([fuzz_row], True)
   \<and> add_bom_item [fuzz_row] ''fuzz'' fuzz_request = Inl IntegrityError
   \<and> add_bom_item [fuzz_row] ''fuzz'' fuzz_request \<noteq> Inr ([fuzz_row], False)"
  by (simp add: add_bom_item_def insert_bom_item_def fuzz_request_def fuzz_row_def str_int_def
      str_nat_2 int64_def)

text \<open>
  C6, amended: re-adding an item with the same circuit, type, value and quantity collides
  on the derived id and raises the integrity error out of \<open>add_bom_item\<close>; the row with
  that id stays in the table, which is as it was; the route answers 500 with the error's
  text when the body passes the request model's validation, and 422 when it does not.
\<close>

theorem add_bom_item_amended:
  assumes "add_bom_item tbl cid item = Inr (tbl', ok)"
    and "req_component_type item' = req_component_type item"
    and "req_component_value item' = req_component_value item"
    and "req_quantity item' = req_quantity item"
  shows "add_bom_item tbl' cid item' = Inl IntegrityError
         \<and> list_ex (\<lambda>r. bom_id r = cid @ ''_'' @ req_component_type item @ ''_''
                          @ req_component_value item @ ''_'' @ str_int (req_quantity item)) tbl'
         \<and> add_bom_item_route tbl' cid item'
             = (tbl', if valid_request item'
                      then Inl (HTTP_500 ''UNIQUE constraint failed: circuit_bom.id'')
                      else Inl HTTP_422)"
proof -
  from add_bom_item_returned [OF assms(1)] have q: "int64 (req_quantity item)"
    and ex: "list_ex (\<lambda>r. bom_id r = cid @ ''_'' @ req_component_type item @ ''_''
                               @ req_component_value item @ ''_'' @ str_int (req_quantity item)) tbl'"
    by simp_all
  from q ex assms(2-4) have dup: "add_bom_item tbl' cid item' = Inl IntegrityError"
    by (simp add: add_bom_item_def insert_bom_item_def Let_def)
  then have "add_bom_item_route tbl' cid item'
             = (tbl', if valid_request item'
                      then Inl (HTTP_500 ''UNIQUE constraint failed: circuit_bom.id'')
                      else Inl HTTP_422)"
    by (simp add: add_bom_item_route_def error_text_def)
  with dup ex show ?thesis by simp
qed

theorem add_bom_item_amended_witness:
  "add_bom_item [] ''fuzz'' fuzz_request = Inr ([fuzz_row], True)
   \<and> add_bom_item [fuzz_row] ''fuzz'' (fuzz_request\<lparr>req_is_critical := True\<rparr>) = Inl IntegrityError
   \<and> add_bom_item_route [fuzz_row] ''fuzz'' (fuzz_request\<lparr>req_is_critical := True\<rparr>)
       = ([fuzz_row], Inl (HTTP_500 ''UNIQUE constraint failed: circuit_bom.id''))
   \<and> add_bom_item_route [fuzz_row] ''fuzz'' (fuzz_request\<lparr>req_confidence_score := 5\<rparr>)
       = ([fuzz_row], Inl HTTP_422)"
proof -
  have v: "valid_request (fuzz_request\<lparr>req_is_critical := True\<rparr>)"
    "\<not> valid_request (fuzz_request\<lparr>req_confidence_score := 5\<rparr>)"
    by (simp_all add: valid_request_def fuzz_request_def)
  from add_bom_item_amended [OF add_bom_item_first, of "fuzz_request\<lparr>req_is_critical := True\<rparr>"]
    add_bom_item_amended [OF add_bom_item_first, of "fuzz_request\<lparr>req_confidence_score := 5\<rparr>"]
    add_bom_item_first v
  show ?thesis by simp
qed

section \<open>Importing components\<close>

lemma get_component_Some_iff: "(\<exists>c. get_component tbl i = Some c) \<longleftrightarrow> i \<in> set (map comp_id tbl)"
  using get_component_None_iff [of tbl i] by (cases "get_component tbl i") auto

lemma list_ex_comp_id: "list_ex (\<lambda>r. comp_id r = i) tbl \<longleftrightarrow> i \<in> set (map comp_id tbl)"
  by (induction tbl) auto

lemma insert_component_new:
  "comp_id c \<notin> set (map comp_id tbl) \<Longrightarrow> storable c \<Longrightarrow> insert_component tbl c = Inr (tbl @ [c])"
  by (simp add: insert_component_def storable_def list_ex_comp_id)

lemma insert_component_overflow:
  "\<not> storable c \<Longrightarrow> insert_component tbl c = Inl OverflowError"
  by (simp add: insert_component_def storable_def)

lemma import_loop_step_skip:
  "comp_id c \<in> set (map comp_id tbl) \<Longrightarrow>
     import_loop tbl (c # cs) ins sk = import_loop tbl cs ins (sk + 1)"
  using get_component_Some_iff [of tbl "comp_id c"] by auto

lemma import_loop_step_insert:
  "comp_id c \<notin> set (map comp_id tbl) \<Longrightarrow> storable c \<Longrightarrow>
     import_loop tbl (c # cs) ins sk = import_loop (tbl @ [c]) cs (ins + 1) sk"
  using get_component_None_iff [of tbl "comp_id c"] by (simp add: insert_component_new)

lemma import_loop_step_fail:
  "comp_id c \<notin> set (map comp_id tbl) \<Longrightarrow> \<not> storable c \<Longrightarrow>
     import_loop tbl (c # cs) ins sk = import_loop tbl cs ins sk"
  using get_component_None_iff [of tbl "comp_id c"] by (simp add: insert_component_overflow)

lemma import_loop_append:
  "import_loop tbl (xs @ ys) ins sk =
     (case import_loop tbl xs ins sk of (t1, i1, s1) \<Rightarrow> import_loop t1 ys i1 s1)"
proof (induction xs arbitrary: tbl ins sk)
  case Nil
  show ?case by simp
next
  case (Cons c xs)
  consider (skip) "comp_id c \<in> set (map comp_id tbl)"
    | (ins) "comp_id c \<notin> set (map comp_id tbl)" "storable c"
    | (fail) "comp_id c \<notin> set (map comp_id tbl)" "\<not> storable c"
    by blast
  then show ?case
  proof cases
    case skip
    then show ?thesis
      using import_loop_step_skip [OF skip, of "xs @ ys" ins sk]
        import_loop_step_skip [OF skip, of xs ins sk] Cons.IH [of tbl ins "sk + 1"]
      by simp
  next
    case ins
    then show ?thesis
      using import_loop_step_insert [OF ins, of "xs @ ys" ins sk]
        import_loop_step_insert [OF ins, of xs ins sk] Cons.IH [of "tbl @ [c]" "ins + 1" sk]
      by simp
  next
    case fail
    then show ?thesis
      using import_loop_step_fail [OF fail, of "xs @ ys" ins sk]
        import_loop_step_fail [OF fail, of xs ins sk] Cons.IH [of tbl ins sk]
      by simp
  qed
qed

lemma import_loop_added:
  "\<exists>added. fst (import_loop tbl cs ins sk) = tbl @ added
     \<and> set added \<subseteq> set cs
     \<and> distinct (map comp_id added)
     \<and> set (map comp_id added) = set (map comp_id (filter storable cs)) - set (map comp_id tbl)
     \<and> fst (snd (import_loop tbl cs ins sk)) = ins + length added
     \<and> snd (snd (import_loop tbl cs ins sk)) + length added \<le> sk + length cs"
proof (induction cs arbitrary: tbl ins sk)
  case Nil
  show ?case by simp
next
  case (Cons c cs)
  consider (skip) "comp_id c \<in> set (map comp_id tbl)"
    | (ins) "comp_id c \<notin> set (map comp_id tbl)" "storable c"
    | (fail) "comp_id c \<notin> set (map comp_id tbl)" "\<not> storable c"
    by blast
  then show ?case
  proof cases
    case skip
    from Cons.IH [of tbl ins "sk + 1"] obtain added where
      a: "fst (import_loop tbl cs ins (sk + 1)) = tbl @ added" "set added \<subseteq> set cs"
         "distinct (map comp_id added)"
         "set (map comp_id added) = set (map comp_id (filter storable cs)) - set (map comp_id tbl)"
         "fst (snd (import_loop tbl cs ins (sk + 1))) = ins + length added"
         "snd (snd (import_loop tbl cs ins (sk + 1))) + length added \<le> sk + 1 + length cs"
      by blast
    have "set (map comp_id added)
            = set (map comp_id (filter storable (c # cs))) - set (map comp_id tbl)"
      using a(4) skip by auto
    with a show ?thesis
      unfolding import_loop_step_skip [OF skip]
      by (intro exI [of _ added]) auto
  next
    case ins
    from Cons.IH [of "tbl @ [c]" "ins + 1" sk] obtain added where
      a: "fst (import_loop (tbl @ [c]) cs (ins + 1) sk) = (tbl @ [c]) @ added" "set added \<subseteq> set cs"
         "distinct (map comp_id added)"
         "set (map comp_id added)
            = set (map comp_id (filter storable cs)) - set (map comp_id (tbl @ [c]))"
         "fst (snd (import_loop (tbl @ [c]) cs (ins + 1) sk)) = ins + 1 + length added"
         "snd (snd (import_loop (tbl @ [c]) cs (ins + 1) sk)) + length added \<le> sk + length cs"
      by blast
    have 1: "set (map comp_id (c # added))
               = set (map comp_id (filter storable (c # cs))) - set (map comp_id tbl)"
      using a(4) ins by auto
    have 2: "distinct (map comp_id (c # added))"
      using a(3,4) by auto
    have 3: "set (c # added) \<subseteq> set (c # cs)"
      using a(2) by auto
    show ?thesis
      unfolding import_loop_step_insert [OF ins]
      using a(1,5,6) 1 2 3 by (intro exI [of _ "c # added"]) simp
  next
    case fail
    from Cons.IH [of tbl ins sk] obtain added where
      a: "fst (import_loop tbl cs ins sk) = tbl @ added" "set added \<subseteq> set cs"
         "distinct (map comp_id added)"
         "set (map comp_id added) = set (map comp_id (filter storable cs)) - set (map comp_id tbl)"
         "fst (snd (import_loop tbl cs ins sk)) = ins + length added"
         "snd (snd (import_loop tbl cs ins sk)) + length added \<le> sk + length cs"
      by blast
    have "set (map comp_id added)
            = set (map comp_id (filter storable (c # cs))) - set (map comp_id tbl)"
      using a(4) fail by auto
    with a show ?thesis
      unfolding import_loop_step_fail [OF fail]
      by (intro exI [of _ added]) auto
  qed
qed

lemma import_loop_saturated:
  assumes "set (map comp_id (filter storable cs)) \<subseteq> set (map comp_id tbl)"
  shows "import_loop tbl cs ins sk
           = (tbl, ins, sk + length (filter (\<lambda>c. comp_id c \<in> set (map comp_id tbl)) cs))"
  using assms
proof (induction cs arbitrary: sk)
  case Nil
  show ?case by simp
next
  case (Cons c cs)
  from Cons.prems have sub: "set (map comp_id (filter storable cs)) \<subseteq> set (map comp_id tbl)"
    by auto
  show ?case
  proof (cases "comp_id c \<in> set (map comp_id tbl)")
    case True
    then show ?thesis
      using import_loop_step_skip [OF True, of cs ins sk] Cons.IH [OF sub, of "sk + 1"]
      by simp
  next
    case False
    with Cons.prems have "\<not> storable c" by auto
    with False show ?thesis
      using import_loop_step_fail [OF False, of cs ins sk] Cons.IH [OF sub, of sk]
      by simp
  qed
qed

lemma transform_row_now:
  "transform_row now row = Inr c \<Longrightarrow> transform_row now' row = Inr (c\<lparr>updated_at := now'\<rparr>)"
  by (auto simp: transform_row_def Let_def split: sum.splits)

lemma transform_rows_now:
  "transform_rows now rows = Inr cs \<Longrightarrow>
     transform_rows now' rows = Inr (map (\<lambda>c. c\<lparr>updated_at := now'\<rparr>) cs)"
proof (induction rows arbitrary: cs)
  case Nil
  then show ?case by simp
next
  case (Cons row rows)
  from Cons.prems obtain c cs' where
    c: "transform_row now row = Inr c" and cs': "transform_rows now rows = Inr cs'"
    and cs: "cs = c # cs'"
    by (auto split: sum.splits)
  from transform_row_now [OF c, of now'] Cons.IH [OF cs'] cs show ?case
    by simp
qed

lemma transform_rows_length: "transform_rows now rows = Inr cs \<Longrightarrow> length cs = length rows"
  by (induction rows arbitrary: cs) (auto split: sum.splits)

lemma import_components_unfold:
  "transform_rows now rows = Inr cs \<Longrightarrow>
   import_components tbl now rows False =
     Inr (fst (import_loop tbl cs 0 0),
          \<lparr>preview = False,
           inserted = Some (fst (snd (import_loop tbl cs 0 0))),
           skipped = Some (snd (snd (import_loop tbl cs 0 0))),
           total_components = length rows\<rparr>)"
  by (simp add: import_components_def transform_rows_length Let_def split: prod.splits)

lemma normalize_type_RESISTOR: "normalize_type (Text ''RESISTOR'') = Inr ''resistor''"
  by (simp add: normalize_type_def type_map_def py_strip_def py_isspace_def py_upper_def
      upper_char_def)

lemma clean_resistor: "clean ''resistor'' = ''resistor''"
  by (simp add: clean_def py_replace_def py_lower_def lower_char_def)

lemma clean_10k: "clean ''10k'' = ''10k''"
  by (simp add: clean_def py_replace_def py_lower_def lower_char_def)

lemma strip_10k: "py_strip ''10k'' = ''10k''"
  by (simp add: py_strip_def py_isspace_def)

lemma transform_resistor_csv_row: "transform_row now resistor_csv_row = Inr (imported_row now)"
  by (simp add: transform_row_def resistor_csv_row_def imported_row_def normalize_type_RESISTOR
      create_component_name_def generate_component_id_def clean_resistor clean_10k strip_10k
      Let_def)

lemma transform_numeric_csv_row: "transform_row now numeric_csv_row = Inl AttributeError"
  by (simp add: transform_row_def numeric_csv_row_def normalize_type_def)

lemma import_numeric_csv_row:
  "import_components tbl now [resistor_csv_row, numeric_csv_row] pv = Inl AttributeError"
  by (simp add: import_components_def transform_resistor_csv_row transform_numeric_csv_row)

lemma storable_imported_row: "storable (imported_row now)"
  by (simp add: storable_def imported_row_def int64_def)

lemma import_huge_csv_row:
  "import_components [] now [huge_csv_row] False
     = Inr ([], \<lparr>preview = False, inserted = Some 0, skipped = Some 0, total_components = 1\<rparr>)"
  by (simp add: import_components_def transform_row_def huge_csv_row_def normalize_type_RESISTOR
      Let_def get_component_def insert_component_def int64_def)

lemma import_resistor_first:
  "import_components [] now [resistor_csv_row] False
     = Inr ([imported_row now],
            \<lparr>preview = False, inserted = Some 1, skipped = Some 0, total_components = 1\<rparr>)"
  using storable_imported_row [of now]
  by (simp add: import_components_def transform_resistor_csv_row get_component_def
      insert_component_def storable_def)

lemma import_resistor_second:
  "import_components [imported_row now] now' [resistor_csv_row] False
     = Inr ([imported_row now],
            \<lparr>preview = False, inserted = Some 0, skipped = Some 1, total_components = 1\<rparr>)"
  by (simp add: import_components_def transform_resistor_csv_row get_component_def
      imported_row_def)

text \<open>
  C8, as stated: importing the resistor row and then importing it again yields
  \<open>inserted=1, skipped=1\<close> on the second run. The second run returns
  \<open>inserted=0, skipped=1\<close>.
\<close>

theorem import_components_counterexample:
  "import_components [] ''t1'' [resistor_csv_row] False
     = Inr ([imported_row ''t1''],
            \<lparr>preview = False, inserted = Some 1, skipped = Some 0, total_components = 1\<rparr>)
   \<and> import_components [imported_row ''t1''] ''t2'' [resistor_csv_row] False
     = Inr ([imported_row ''t1''],
            \<lparr>preview = False, inserted = Some 0, skipped = Some 1, total_components = 1\<rparr>)
   \<and> import_components [imported_row ''t1''] ''t2'' [resistor_csv_row] False
     \<noteq> Inr ([imported_row ''t1''],
            \<lparr>preview = False, inserted = Some 1, skipped = Some 1, total_components = 1\<rparr>)"
  by (simp add: import_resistor_first import_resistor_second)

text \<open>
  C8, amended: during an import of rows that the transformation accepts, a row whose
  generated id is in the table when its turn comes, from an earlier import or from an
  earlier row of this one, is skipped and not inserted: the table and the inserted count
  stay and the skipped count grows by one. The rows inserted have ids that the table did
  not hold, each id once; inserted counts them, and no row is counted both ways.
  Importing the resistor row returns \<open>inserted=1, skipped=0\<close>, importing it again
  \<open>inserted=0, skipped=1\<close>; in general a second import of the same file inserts
  nothing.
\<close>

theorem import_components_amended:
  assumes "transform_rows now rows = Inr comps"
  shows
    "(\<exists>added ins sk.
        import_components tbl now rows False
          = Inr (tbl @ added,
                 \<lparr>preview = False, inserted = Some ins, skipped = Some sk,
                  total_components = length rows\<rparr>)
        \<and> set added \<subseteq> set comps
        \<and> distinct (map comp_id added)
        \<and> set (map comp_id added) \<inter> set (map comp_id tbl) = {}
        \<and> ins = length added
        \<and> ins + sk \<le> length rows
        \<and> import_components (tbl @ added) now' rows False
            = Inr (tbl @ added,
                   \<lparr>preview = False, inserted = Some 0,
                    skipped = Some (length (filter (\<lambda>c. comp_id c \<in> set (map comp_id (tbl @ added)))
                                              comps)),
                    total_components = length rows\<rparr>))
     \<and> (comps = pre @ c # post \<and> import_loop tbl pre 0 0 = (t1, i1, s1)
          \<and> comp_id c \<in> set (map comp_id t1) \<longrightarrow>
        import_loop tbl comps 0 0 = import_loop t1 post i1 (s1 + 1)
        \<and> set (map comp_id t1)
            = set (map comp_id tbl) \<union> set (map comp_id (filter storable pre)))
     \<and> import_components [] now [resistor_csv_row] False
         = Inr ([imported_row now],
                \<lparr>preview = False, inserted = Some 1, skipped = Some 0, total_components = 1\<rparr>)
     \<and> import_components [imported_row now] now' [resistor_csv_row] False
         = Inr ([imported_row now],
                \<lparr>preview = False, inserted = Some 0, skipped = Some 1, total_components = 1\<rparr>)"
proof (intro conjI impI)
  let ?sk = "snd (snd (import_loop tbl comps 0 0))"
  let ?upd = "map (\<lambda>c. c\<lparr>updated_at := now'\<rparr>) comps"
  from import_loop_added [of tbl comps 0 0] obtain added where
    a1: "fst (import_loop tbl comps 0 0) = tbl @ added"
    and a2: "set added \<subseteq> set comps"
    and a3: "distinct (map comp_id added)"
    and a4: "set (map comp_id added)
               = set (map comp_id (filter storable comps)) - set (map comp_id tbl)"
    and a5: "fst (snd (import_loop tbl comps 0 0)) = 0 + length added"
    and a6: "?sk + length added \<le> 0 + length comps"
    by blast
  have len: "length comps = length rows"
    using assms by (rule transform_rows_length)
  have first: "import_components tbl now rows False
       = Inr (tbl @ added,
              \<lparr>preview = False, inserted = Some (length added),
               skipped = Some ?sk, total_components = length rows\<rparr>)"
    using a1 a5 by (simp add: import_components_unfold [OF assms])
  have disj: "set (map comp_id added) \<inter> set (map comp_id tbl) = {}"
    using a4 by auto
  have sum: "length added + ?sk \<le> length rows"
    using a6 len by simp
  have again_rows: "transform_rows now' rows = Inr ?upd"
    using assms by (rule transform_rows_now)
  have st: "filter storable ?upd = map (\<lambda>c. c\<lparr>updated_at := now'\<rparr>) (filter storable comps)"
    by (induction comps) (simp_all add: storable_def)
  have "set (map comp_id (filter storable ?upd)) = set (map comp_id (filter storable comps))"
    unfolding st by (simp add: comp_def)
  also have "\<dots> \<subseteq> set (map comp_id (tbl @ added))"
    using a4 by auto
  finally have sat: "set (map comp_id (filter storable ?upd)) \<subseteq> set (map comp_id (tbl @ added))" .
  have cnt: "length (filter (\<lambda>c. comp_id c \<in> set (map comp_id (tbl @ added))) ?upd)
             = length (filter (\<lambda>c. comp_id c \<in> set (map comp_id (tbl @ added))) comps)"
    by (induction comps) simp_all
  have again: "import_components (tbl @ added) now' rows False
            = Inr (tbl @ added,
                   \<lparr>preview = False, inserted = Some 0,
                    skipped = Some (length (filter (\<lambda>c. comp_id c \<in> set (map comp_id (tbl @ added)))
                                              comps)),
                    total_components = length rows\<rparr>)"
    using import_loop_saturated [OF sat, of 0 0] cnt
    by (simp add: import_components_unfold [OF again_rows])
  from first a2 a3 disj sum again
  show "\<exists>added ins sk.
        import_components tbl now rows False
          = Inr (tbl @ added,
                 \<lparr>preview = False, inserted = Some ins, skipped = Some sk,
                  total_components = length rows\<rparr>)
        \<and> set added \<subseteq> set comps
        \<and> distinct (map comp_id added)
        \<and> set (map comp_id added) \<inter> set (map comp_id tbl) = {}
        \<and> ins = length added
        \<and> ins + sk \<le> length rows
        \<and> import_components (tbl @ added) now' rows False
            = Inr (tbl @ added,
                   \<lparr>preview = False, inserted = Some 0,
                    skipped = Some (length (filter (\<lambda>c. comp_id c \<in> set (map comp_id (tbl @ added)))
                                              comps)),
                    total_components = length rows\<rparr>)"
    by (intro exI [of _ added] exI [of _ "length added"] exI [of _ ?sk]) simp
next
  assume h: "comps = pre @ c # post \<and> import_loop tbl pre 0 0 = (t1, i1, s1)
          \<and> comp_id c \<in> set (map comp_id t1)"
  then have m: "comp_id c \<in> set (map comp_id t1)" by simp
  from h have "import_loop tbl comps 0 0 = import_loop t1 (c # post) i1 s1"
    by (simp add: import_loop_append del: import_loop.simps)
  also have "\<dots> = import_loop t1 post i1 (s1 + 1)"
    by (rule import_loop_step_skip [OF m])
  finally show "import_loop tbl comps 0 0 = import_loop t1 post i1 (s1 + 1)" .
  from import_loop_added [of tbl pre 0 0] h obtain added where
    "t1 = tbl @ added"
    "set (map comp_id added) = set (map comp_id (filter storable pre)) - set (map comp_id tbl)"
    by auto
  then show "set (map comp_id t1)
            = set (map comp_id tbl) \<union> set (map comp_id (filter storable pre))"
    by auto
next
  show "import_components [] now [resistor_csv_row] False
         = Inr ([imported_row now],
                \<lparr>preview = False, inserted = Some 1, skipped = Some 0, total_components = 1\<rparr>)"
    by (rule import_resistor_first)
  show "import_components [imported_row now] now' [resistor_csv_row] False
         = Inr ([imported_row now],
                \<lparr>preview = False, inserted = Some 0, skipped = Some 1, total_components = 1\<rparr>)"
    by (rule import_resistor_second)
qed

theorem import_components_amended_witness:
  "transform_rows ''t1'' [resistor_csv_row, resistor_csv_row]
     = Inr [imported_row ''t1'', imported_row ''t1'']
   \<and> [imported_row ''t1'', imported_row ''t1''] = [imported_row ''t1''] @ imported_row ''t1'' # []
   \<and> import_loop [] [imported_row ''t1''] 0 0 = ([imported_row ''t1''], 1, 0)
   \<and> comp_id (imported_row ''t1'') \<in> set (map comp_id [imported_row ''t1''])
   \<and> import_loop [] [imported_row ''t1'', imported_row ''t1''] 0 0 = ([imported_row ''t1''], 1, 1)
   \<and> import_components [] ''t1'' [resistor_csv_row, resistor_csv_row] False
       = Inr ([imported_row ''t1''],
              \<lparr>preview = False, inserted = Some 1, skipped = Some 1, total_components = 2\<rparr>)
   \<and> import_components [] ''t1'' [resistor_csv_row] False
       = Inr ([imported_row ''t1''],
              \<lparr>preview = False, inserted = Some 1, skipped = Some 0, total_components = 1\<rparr>)
   \<and> import_components [imported_row ''t1''] ''t2'' [resistor_csv_row] False
       = Inr ([imported_row ''t1''],
              \<lparr>preview = False, inserted = Some 0, skipped = Some 1, total_components = 1\<rparr>)"
proof -
  let ?i = "imported_row ''t1''"
  have tr: "transform_rows ''t1'' [resistor_csv_row, resistor_csv_row] = Inr [?i, ?i]"
    by (simp add: transform_resistor_csv_row)
  have split: "[?i, ?i] = [?i] @ ?i # []" by simp
  have pre: "import_loop [] [?i] 0 0 = ([?i], 1, 0)"
    using storable_imported_row [of "''t1''"]
    by (simp add: get_component_def insert_component_def storable_def)
  have mem: "comp_id ?i \<in> set (map comp_id [?i])" by simp
  note T = import_components_amended [OF tr, where tbl = "[]" and now' = "''t2''"
      and pre = "[?i]" and c = ?i and post = "[]" and ?t1.0 = "[?i]" and ?i1.0 = 1 and ?s1.0 = 0]
  from T split pre mem have "import_loop [] [?i, ?i] 0 0 = import_loop [?i] [] 1 (0 + 1)"
    by blast
  then have loop: "import_loop [] [?i, ?i] 0 0 = ([?i], 1, 1)"
    by simp
  then have both: "import_components [] ''t1'' [resistor_csv_row, resistor_csv_row] False
       = Inr ([?i],
              \<lparr>preview = False, inserted = Some 1, skipped = Some 1, total_components = 2\<rparr>)"
    by (simp add: import_components_unfold [OF tr])
  from T have runs: "import_components [] ''t1'' [resistor_csv_row] False
       = Inr ([?i],
              \<lparr>preview = False, inserted = Some 1, skipped = Some 0, total_components = 1\<rparr>)"
    "import_components [?i] ''t2'' [resistor_csv_row] False
       = Inr ([?i],
              \<lparr>preview = False, inserted = Some 0, skipped = Some 1, total_components = 1\<rparr>)"
    by blast+
  from tr split pre mem loop both runs show ?thesis
    by (intro conjI)
qed

section \<open>BOM validation\<close>

lemma validate_loop_eq:
  "validate_loop inventory bs ms miss cnt =
     (ms @ map (\<lambda>b. \<lparr>e_bom_item = b, e_component = top_hit inventory b, e_available = True,
                       quantity_needed = quantity b,
                       quantity_available = stock_of (top_hit inventory b)\<rparr>)
             (filter (is_match inventory) bs),
      miss @ map (\<lambda>b. \<lparr>e_bom_item = b, e_component = top_hit inventory b, e_available = False,
                         quantity_needed = quantity b,
                         quantity_available = stock_of (top_hit inventory b)\<rparr>)
               (filter (\<lambda>b. \<not> is_match inventory b) bs),
      cnt + length (filter (is_match inventory) bs))"
proof (induction bs arbitrary: ms miss cnt)
  case Nil
  show ?case by simp
next
  case (Cons b bs)
  show ?case
  proof (cases "filter (\<lambda>c. comp_type c = component_type b)
                  (search_components inventory (component_value b))")
    case Nil
    then have "top_hit inventory b = None" "\<not> is_match inventory b"
      by (simp_all add: top_hit_def is_match_def)
    with Nil show ?thesis
      by (simp add: Cons.IH stock_of_def)
  next
    case (Cons c cs)
    then have hit: "top_hit inventory b = Some c"
      by (simp add: top_hit_def)
    show ?thesis
    proof (cases "quantity b \<le> quantity_in_stock c")
      case True
      with hit have "is_match inventory b" by (simp add: is_match_def)
      with Cons True hit show ?thesis
        by (simp add: Cons.IH stock_of_def)
    next
      case False
      with hit have "\<not> is_match inventory b" by (simp add: is_match_def)
      with Cons False hit show ?thesis
        by (simp add: Cons.IH stock_of_def)
    qed
  qed
qed

lemma validate_bom_eq:
  "validate_bom inventory tbl cid =
     Inr \<lparr>total_items = length (get_bom tbl cid),
          available_count = length (filter (is_match inventory) (get_bom tbl cid)),
          missing_count = length (filter (\<lambda>b. \<not> is_match inventory b) (get_bom tbl cid)),
          completeness =
            (if get_bom tbl cid = [] then 0
             else of_nat (length (filter (is_match inventory) (get_bom tbl cid)))
                  / of_nat (length (get_bom tbl cid))),
          matches =
            map (\<lambda>b. \<lparr>e_bom_item = b, e_component = top_hit inventory b, e_available = True,
                       quantity_needed = quantity b,
                       quantity_available = stock_of (top_hit inventory b)\<rparr>)
              (filter (is_match inventory) (get_bom tbl cid)),
          missing =
            map (\<lambda>b. \<lparr>e_bom_item = b, e_component = top_hit inventory b, e_available = False,
                       quantity_needed = quantity b,
                       quantity_available = stock_of (top_hit inventory b)\<rparr>)
              (filter (\<lambda>b. \<not> is_match inventory b) (get_bom tbl cid))\<rparr>"
  by (simp add: validate_bom_def validate_loop_eq py_truediv_def Let_def)


lemma get_bom_fuzz: "get_bom [fuzz_row, bare_row] ''fuzz'' = [bare_row, fuzz_row]"
  by (simp add: get_bom_def fuzz_row_def bare_row_def)

lemma search_10k: "search_components [stock_row] ''10k'' = [stock_row]"
  by (simp add: search_components_def stock_row_def sql_like_def lower_char_def)

lemma search_100nF: "search_components [stock_row] ''100nF'' = []"
  by (simp add: search_components_def stock_row_def sql_like_def lower_char_def)


lemma example_fields:
  "component_value fuzz_row = ''10k''" "component_type fuzz_row = ''resistor''"
  "quantity fuzz_row = 2" "component_value bare_row = ''100nF''"
  "component_type bare_row = ''capacitor''" "quantity bare_row = 3"
  "comp_type stock_row = ''resistor''" "quantity_in_stock stock_row = 50"
  by (simp_all add: fuzz_row_def bare_row_def stock_row_def)

lemma top_hit_fuzz_row: "top_hit [stock_row] fuzz_row = Some stock_row"
  by (simp add: top_hit_def example_fields search_10k)

lemma top_hit_bare_row: "top_hit [stock_row] bare_row = None"
  by (simp add: top_hit_def example_fields search_100nF)

lemma is_match_fuzz_row: "is_match [stock_row] fuzz_row"
  by (simp add: is_match_def top_hit_fuzz_row example_fields)

lemma is_match_bare_row: "\<not> is_match [stock_row] bare_row"
  by (simp add: is_match_def top_hit_bare_row)

text \<open>
  C1: \<open>validate_bom\<close> returns, as matches, the fetched items for which the search results
  for the item's value, filtered to the item's type, are non-empty with a first element
  whose stock is at least the item's quantity, and as misses all other fetched items, both
  in fetch order; an entry carries the first filtered result (none if there is none) and
  that component's stock (0 if there is none).
\<close>

theorem validate_bom_classification:
  "(\<exists>v. validate_bom inventory tbl cid = Inr v
      \<and> matches v =
          map (\<lambda>b. \<lparr>e_bom_item = b, e_component = top_hit inventory b, e_available = True,
                     quantity_needed = quantity b,
                     quantity_available = stock_of (top_hit inventory b)\<rparr>)
            (filter (is_match inventory) (get_bom tbl cid))
      \<and> missing v =
          map (\<lambda>b. \<lparr>e_bom_item = b, e_component = top_hit inventory b, e_available = False,
                     quantity_needed = quantity b,
                     quantity_available = stock_of (top_hit inventory b)\<rparr>)
            (filter (\<lambda>b. \<not> is_match inventory b) (get_bom tbl cid)))
   \<and> is_match inventory b =
       (let matching = filter (\<lambda>c. comp_type c = component_type b)
                         (search_components inventory (component_value b))
        in matching \<noteq> [] \<and> quantity b \<le> quantity_in_stock (hd matching))
   \<and> top_hit inventory b =
       (let matching = filter (\<lambda>c. comp_type c = component_type b)
                         (search_components inventory (component_value b))
        in if matching = [] then None else Some (hd matching))
   \<and> stock_of (top_hit inventory b) =
       (let matching = filter (\<lambda>c. comp_type c = component_type b)
                         (search_components inventory (component_value b))
        in if matching = [] then 0 else quantity_in_stock (hd matching))"
proof (intro conjI)
  show "\<exists>v. validate_bom inventory tbl cid = Inr v
      \<and> matches v =
          map (\<lambda>b. \<lparr>e_bom_item = b, e_component = top_hit inventory b, e_available = True,
                     quantity_needed = quantity b,
                     quantity_available = stock_of (top_hit inventory b)\<rparr>)
            (filter (is_match inventory) (get_bom tbl cid))
      \<and> missing v =
          map (\<lambda>b. \<lparr>e_bom_item = b, e_component = top_hit inventory b, e_available = False,
                     quantity_needed = quantity b,
                     quantity_available = stock_of (top_hit inventory b)\<rparr>)
            (filter (\<lambda>b. \<not> is_match inventory b) (get_bom tbl cid))"
    by (simp add: validate_bom_eq)
  show "is_match inventory b =
       (let matching = filter (\<lambda>c. comp_type c = component_type b)
                         (search_components inventory (component_value b))
        in matching \<noteq> [] \<and> quantity b \<le> quantity_in_stock (hd matching))"
    by (simp add: is_match_def top_hit_def Let_def split: list.splits)
  show "top_hit inventory b =
       (let matching = filter (\<lambda>c. comp_type c = component_type b)
                         (search_components inventory (component_value b))
        in if matching = [] then None else Some (hd matching))"
    by (simp add: top_hit_def Let_def split: list.splits)
  show "stock_of (top_hit inventory b) =
       (let matching = filter (\<lambda>c. comp_type c = component_type b)
                         (search_components inventory (component_value b))
        in if matching = [] then 0 else quantity_in_stock (hd matching))"
    by (simp add: stock_of_def top_hit_def Let_def split: list.splits)
qed

theorem validate_bom_classification_witness:
  "\<exists>v. validate_bom [stock_row] [fuzz_row, bare_row] ''fuzz'' = Inr v
      \<and> matches v = [\<lparr>e_bom_item = fuzz_row, e_component = Some stock_row, e_available = True,
                       quantity_needed = 2, quantity_available = 50\<rparr>]
      \<and> missing v = [\<lparr>e_bom_item = bare_row, e_component = None, e_available = False,
                       quantity_needed = 3, quantity_available = 0\<rparr>]"
proof -
  from validate_bom_classification [of "[stock_row]" "[fuzz_row, bare_row]" "''fuzz''" fuzz_row]
  obtain v where v: "validate_bom [stock_row] [fuzz_row, bare_row] ''fuzz'' = Inr v"
    and m: "matches v =
          map (\<lambda>b. \<lparr>e_bom_item = b, e_component = top_hit [stock_row] b, e_available = True,
                     quantity_needed = quantity b,
                     quantity_available = stock_of (top_hit [stock_row] b)\<rparr>)
            (filter (is_match [stock_row]) (get_bom [fuzz_row, bare_row] ''fuzz''))"
    and x: "missing v =
          map (\<lambda>b. \<lparr>e_bom_item = b, e_component = top_hit [stock_row] b, e_available = False,
                     quantity_needed = quantity b,
                     quantity_available = stock_of (top_hit [stock_row] b)\<rparr>)
            (filter (\<lambda>b. \<not> is_match [stock_row] b) (get_bom [fuzz_row, bare_row] ''fuzz''))"
    by blast
  note q = example_fields
  from m have "matches v = [\<lparr>e_bom_item = fuzz_row, e_component = Some stock_row, e_available = True,
                       quantity_needed = 2, quantity_available = 50\<rparr>]"
    by (simp add: get_bom_fuzz is_match_fuzz_row is_match_bare_row top_hit_fuzz_row stock_of_def q)
  moreover from x have "missing v = [\<lparr>e_bom_item = bare_row, e_component = None, e_available = False,
                       quantity_needed = 3, quantity_available = 0\<rparr>]"
    by (simp add: get_bom_fuzz is_match_fuzz_row is_match_bare_row top_hit_bare_row stock_of_def q)
  ultimately show ?thesis using v by blast
qed

text \<open>
  C2: \<open>validate_bom\<close> always returns a result, never a division error; its completeness
  is the number of matches divided by the number of BOM items, and is 0 when the BOM is
  empty.
\<close>

theorem validate_bom_completeness:
  "\<exists>v. validate_bom inventory tbl cid = Inr v
      \<and> total_items v = length (get_bom tbl cid)
      \<and> available_count v = length (matches v)
      \<and> missing_count v = length (missing v)
      \<and> available_count v + missing_count v = total_items v
      \<and> completeness v =
          (if total_items v = 0 then 0
           else of_nat (length (matches v)) / of_nat (total_items v))"
proof -
  have "length (filter (is_match inventory) (get_bom tbl cid))
        + length (filter (\<lambda>b. \<not> is_match inventory b) (get_bom tbl cid))
        = length (get_bom tbl cid)"
    by (rule sum_length_filter_compl)
  then show ?thesis
    by (simp add: validate_bom_eq)
qed

theorem validate_bom_completeness_witness:
  "(\<exists>v. validate_bom [stock_row] [fuzz_row, bare_row] ''fuzz'' = Inr v
      \<and> total_items v = 2 \<and> available_count v = 1 \<and> missing_count v = 1
      \<and> completeness v = 1 / 2)
   \<and> (\<exists>v. validate_bom [stock_row] [] ''fuzz'' = Inr v \<and> total_items v = 0 \<and> completeness v = 0)"
proof -
  from validate_bom_completeness [of "[stock_row]" "[fuzz_row, bare_row]" "''fuzz''"]
  obtain v where v: "validate_bom [stock_row] [fuzz_row, bare_row] ''fuzz'' = Inr v"
    and t: "total_items v = length (get_bom [fuzz_row, bare_row] ''fuzz'')"
    and a: "available_count v = length (matches v)"
    and s: "available_count v + missing_count v = total_items v"
    and c: "completeness v =
          (if total_items v = 0 then 0
           else of_nat (length (matches v)) / of_nat (total_items v))"
    by blast
  from v have "matches v =
          map (\<lambda>b. \<lparr>e_bom_item = b, e_component = top_hit [stock_row] b, e_available = True,
                     quantity_needed = quantity b,
                     quantity_available = stock_of (top_hit [stock_row] b)\<rparr>)
            (filter (is_match [stock_row]) (get_bom [fuzz_row, bare_row] ''fuzz''))"
    by (auto simp: validate_bom_eq)
  then have l: "length (matches v) = 1"
    by (simp add: get_bom_fuzz is_match_fuzz_row is_match_bare_row)
  from t have t2: "total_items v = 2" by (simp add: get_bom_fuzz)
  from a l have a1: "available_count v = 1" by simp
  from s t2 a1 have m1: "missing_count v = 1" by simp
  from c t2 l have c2: "completeness v = 1 / 2" by simp
  from validate_bom_completeness [of "[stock_row]" "[]" "''fuzz''"]
  obtain w where w: "validate_bom [stock_row] [] ''fuzz'' = Inr w"
    and wt: "total_items w = length (get_bom [] ''fuzz'')"
    and wc: "completeness w =
          (if total_items w = 0 then 0
           else of_nat (length (matches w)) / of_nat (total_items w))"
    by blast
  from wt have wt0: "total_items w = 0" by (simp add: get_bom_def)
  with wc have "completeness w = 0" by simp
  with v t2 a1 m1 c2 w wt0 show ?thesis by blast
qed

section \<open>Shopping list\<close>

lemma shopping_loop_eq:
  "shopping_loop ms acc = acc @ map (\<lambda>m. shopping_entry (e_bom_item m)) ms"
  by (induction ms arbitrary: acc)
    (simp_all add: shopping_entry_def references_of_def split: option.splits)

lemma get_shopping_list_eq:
  "get_shopping_list inventory tbl cid =
     Inr \<lparr>missing_items =
            map shopping_entry (filter (\<lambda>b. \<not> is_match inventory b) (get_bom tbl cid)),
          total_missing = length (filter (\<lambda>b. \<not> is_match inventory b) (get_bom tbl cid))\<rparr>"
  by (simp add: get_shopping_list_def validate_bom_eq shopping_loop_eq Let_def comp_def)

lemma is_match_cong:
  assumes "component_type b = component_type b'" "component_value b = component_value b'"
    "quantity b = quantity b'"
  shows "is_match inventory b = is_match inventory b'"
  using assms by (simp add: is_match_def top_hit_def split: list.splits)

lemma shopping_entry_fields:
  "shopping_entry b = shopping_entry b' \<Longrightarrow>
     component_type b = component_type b' \<and> component_value b = component_value b'
     \<and> quantity b = quantity b'"
  by (simp add: shopping_entry_def)

lemma matched_not_listed:
  assumes "is_match inventory b"
  shows "shopping_entry b \<notin> set (map shopping_entry (filter (\<lambda>b. \<not> is_match inventory b) bs))"
proof
  assume "shopping_entry b \<in> set (map shopping_entry (filter (\<lambda>b. \<not> is_match inventory b) bs))"
  then obtain b' where b': "\<not> is_match inventory b'" "shopping_entry b = shopping_entry b'"
    by auto
  from shopping_entry_fields [OF b'(2)] have "is_match inventory b = is_match inventory b'"
    by (intro is_match_cong) simp_all
  with assms b'(1) show False by simp
qed

lemma search_empty: "search_components [] q = []"
  by (simp add: search_components_def)

lemma is_match_empty: "\<not> is_match [] b"
  by (simp add: is_match_def top_hit_def search_empty)

lemma get_bom_bare: "get_bom [bare_row] ''fuzz'' = [bare_row]"
  by (simp add: get_bom_def bare_row_def)

lemma shopping_entry_bare:
  "shopping_entry bare_row
     = \<lparr>s_type = ''capacitor'', s_value = ''100nF'', s_quantity = 3, references = []\<rparr>"
  by (simp add: shopping_entry_def references_of_def bare_row_def)

text \<open>
  C3, as stated: the references of a shopping-list entry are the designator split on
  comma, or the empty list if the designator is null. A missing line whose designator is
  the empty string, which is not null and splits into one empty piece, is listed with no
  references.
\<close>

theorem get_shopping_list_counterexample:
  "get_shopping_list [] [bare_row] ''fuzz''
     = Inr \<lparr>missing_items = [\<lparr>s_type = ''capacitor'', s_value = ''100nF'', s_quantity = 3,
                               references = []\<rparr>],
            total_missing = 1\<rparr>
   \<and> reference_designator bare_row = Some []
   \<and> spec_references (reference_designator bare_row) = [[]]
   \<and> spec_references (reference_designator bare_row) \<noteq> []"
  by (simp add: get_shopping_list_eq get_bom_bare is_match_empty shopping_entry_bare)
    (simp add: bare_row_def spec_references_def)

text \<open>
  C3, amended: the shopping list is the list of \<open>validate_bom\<close>'s misses in the same
  order, one entry for each, projected to type, value, quantity and references, where the
  references are the reference designator split on comma, or the empty list if the
  designator is null or the empty string; no entry is the projection of an item among the
  matches, and \<open>total_missing\<close> is the missing count of \<open>validate_bom\<close>.
\<close>

theorem get_shopping_list_amended:
  "\<exists>v sl. validate_bom inventory tbl cid = Inr v
      \<and> get_shopping_list inventory tbl cid = Inr sl
      \<and> missing_items sl =
          map (\<lambda>m. \<lparr>s_type = component_type (e_bom_item m),
                     s_value = component_value (e_bom_item m),
                     s_quantity = quantity (e_bom_item m),
                     references =
                       (case reference_designator (e_bom_item m) of
                          None \<Rightarrow> []
                        | Some r \<Rightarrow> if r = [] then [] else py_split (CHR '','') r)\<rparr>)
            (missing v)
      \<and> total_missing sl = missing_count v
      \<and> (\<forall>m \<in> set (matches v). shopping_entry (e_bom_item m) \<notin> set (missing_items sl))
      \<and> (\<forall>m \<in> set (matches v). e_bom_item m \<notin> set (map e_bom_item (missing v)))"
proof -
  let ?miss = "filter (\<lambda>b. \<not> is_match inventory b) (get_bom tbl cid)"
  let ?v = "\<lparr>total_items = length (get_bom tbl cid),
          available_count = length (filter (is_match inventory) (get_bom tbl cid)),
          missing_count = length ?miss,
          completeness =
            (if get_bom tbl cid = [] then 0
             else of_nat (length (filter (is_match inventory) (get_bom tbl cid)))
                  / of_nat (length (get_bom tbl cid))),
          matches =
            map (\<lambda>b. \<lparr>e_bom_item = b, e_component = top_hit inventory b, e_available = True,
                       quantity_needed = quantity b,
                       quantity_available = stock_of (top_hit inventory b)\<rparr>)
              (filter (is_match inventory) (get_bom tbl cid)),
          missing =
            map (\<lambda>b. \<lparr>e_bom_item = b, e_component = top_hit inventory b, e_available = False,
                       quantity_needed = quantity b,
                       quantity_available = stock_of (top_hit inventory b)\<rparr>) ?miss\<rparr>"
  let ?sl = "\<lparr>missing_items = map shopping_entry ?miss, total_missing = length ?miss\<rparr>"
  have 1: "validate_bom inventory tbl cid = Inr ?v" by (rule validate_bom_eq)
  have 2: "get_shopping_list inventory tbl cid = Inr ?sl" by (rule get_shopping_list_eq)
  have 3: "missing_items ?sl =
          map (\<lambda>m. \<lparr>s_type = component_type (e_bom_item m),
                     s_value = component_value (e_bom_item m),
                     s_quantity = quantity (e_bom_item m),
                     references =
                       (case reference_designator (e_bom_item m) of
                          None \<Rightarrow> []
                        | Some r \<Rightarrow> if r = [] then [] else py_split (CHR '','') r)\<rparr>)
            (missing ?v)"
    by (simp add: shopping_entry_def references_of_def comp_def)
  have 4: "total_missing ?sl = missing_count ?v" by simp
  have 5: "\<forall>m \<in> set (matches ?v). shopping_entry (e_bom_item m) \<notin> set (missing_items ?sl)"
    using matched_not_listed [of inventory _ "get_bom tbl cid"] by auto
  have 6: "\<forall>m \<in> set (matches ?v). e_bom_item m \<notin> set (map e_bom_item (missing ?v))"
    by auto
  from 1 2 3 4 5 6 show ?thesis by blast
qed

theorem get_shopping_list_amended_witness:
  "\<exists>v sl. validate_bom [stock_row] [fuzz_row, bare_row] ''fuzz'' = Inr v
      \<and> get_shopping_list [stock_row] [fuzz_row, bare_row] ''fuzz'' = Inr sl
      \<and> map e_bom_item (matches v) = [fuzz_row]
      \<and> missing_items sl = [\<lparr>s_type = ''capacitor'', s_value = ''100nF'', s_quantity = 3,
                               references = []\<rparr>]
      \<and> total_missing sl = 1
      \<and> shopping_entry fuzz_row \<notin> set (missing_items sl)"
proof -
  from get_shopping_list_amended [of "[stock_row]" "[fuzz_row, bare_row]" "''fuzz''"]
  obtain v sl where v: "validate_bom [stock_row] [fuzz_row, bare_row] ''fuzz'' = Inr v"
    and sl: "get_shopping_list [stock_row] [fuzz_row, bare_row] ''fuzz'' = Inr sl"
    and no: "\<forall>m \<in> set (matches v). shopping_entry (e_bom_item m) \<notin> set (missing_items sl)"
    by blast
  from v have m: "map e_bom_item (matches v) = [fuzz_row]"
    by (auto simp: validate_bom_eq get_bom_fuzz is_match_fuzz_row is_match_bare_row comp_def)
  then obtain e where "e \<in> set (matches v)" "e_bom_item e = fuzz_row"
    by (cases "matches v") auto
  with no have n: "shopping_entry fuzz_row \<notin> set (missing_items sl)" by auto
  from sl have i: "missing_items sl = [\<lparr>s_type = ''capacitor'', s_value = ''100nF'', s_quantity = 3,
                               references = []\<rparr>]" "total_missing sl = 1"
    by (auto simp: get_shopping_list_eq get_bom_fuzz is_match_fuzz_row is_match_bare_row
        shopping_entry_bare)
  from v sl m n i show ?thesis by (intro exI [of _ v] exI [of _ sl]) simp
qed

section \<open>CSV export\<close>

lemma export_loop_eq: "export_loop items lines = lines @ map csv_line items"
  by (induction items arbitrary: lines) (simp_all add: csv_line_def)

lemma export_bom_csv_eq:
  "export_bom_csv tbl cid = py_join [newline] (csv_header # map csv_line (get_bom tbl cid))"
  by (simp add: export_bom_csv_def export_loop_eq)

lemma round_half_even_near: "\<bar>of_int (round_half_even y) - y\<bar> \<le> 1 / 2"
proof -
  have "of_int \<lfloor>y\<rfloor> \<le> y" "y < of_int \<lfloor>y\<rfloor> + 1"
    by linarith+
  then show ?thesis
    by (auto simp: round_half_even_def Let_def abs_le_iff)
qed

lemma round_half_even_nonneg: "0 \<le> y \<Longrightarrow> 0 \<le> round_half_even y"
  by (auto simp: round_half_even_def Let_def)

lemma digit_char_digit: "digit_char d \<in> set ''0123456789''"
proof -
  have "d mod 10 < length ''0123456789''" by simp
  then show ?thesis unfolding digit_char_def by (rule nth_mem)
qed

lemma str_nat_digits: "set (str_nat n) \<subseteq> set ''0123456789''"
proof (induction n rule: str_nat.induct)
  case (1 n)
  show ?case
  proof (cases "n < 10")
    case True
    then show ?thesis
      using digit_char_digit [of n] by (subst str_nat.simps) simp
  next
    case False
    with 1 have "set (str_nat (n div 10)) \<subseteq> set ''0123456789''" by simp
    with False show ?thesis
      using digit_char_digit [of "n mod 10"] by (subst str_nat.simps) simp
  qed
qed

lemma str_nat_no_newline: "newline \<notin> set (str_nat n)"
  using str_nat_digits [of n] by (auto simp: newline_def)

lemma str_int_no_newline: "newline \<notin> set (str_int i)"
  using str_nat_no_newline by (simp add: str_int_def newline_def)

lemma digit_char_not_newline: "digit_char d \<noteq> newline"
  using digit_char_digit [of d] by (auto simp: newline_def)

lemma format_2f_no_newline: "newline \<notin> set (format_2f x)"
  using str_nat_no_newline digit_char_not_newline [symmetric]
  by (auto simp: format_2f_def Let_def newline_def)

lemma py_join_Cons: "py_join sep (x # xs) = x @ concat (map (\<lambda>y. sep @ y) xs)"
  by (induction xs arbitrary: x) simp_all

lemma csv_header_no_newline: "newline \<notin> set csv_header"
  by (simp add: csv_header_def newline_def)

lemma csv_line_no_newline:
  assumes "newline \<notin> set (component_type b)" "newline \<notin> set (component_value b)"
    "newline \<notin> set (case reference_designator b of None \<Rightarrow> [] | Some r \<Rightarrow> r)"
  shows "newline \<notin> set (csv_line b)"
proof -
  have "newline \<notin> set '',''" "newline \<notin> set [dquote]" "newline \<notin> set ''Yes''"
    "newline \<notin> set ''No''"
    by (simp_all add: newline_def dquote_def)
  with assms str_int_no_newline [of "quantity b"] format_2f_no_newline [of "confidence_score b"]
  show ?thesis
    by (simp add: csv_line_def)
qed

lemma format_2f_fuzz: "format_2f 1 = ''1.00''"
  by (simp add: format_2f_def round_half_even_def str_nat.simps [of "Suc 0"] digit_char_def)

lemma csv_line_fuzz_row:
  "csv_line fuzz_row = ''resistor,10k,2,'' @ [dquote] @ ''R1,R2'' @ [dquote] @ '',No,1.00''"
  by (simp add: csv_line_def fuzz_row_def str_int_def str_nat_2 format_2f_fuzz)

lemma get_bom_fuzz_only: "get_bom [fuzz_row] ''fuzz'' = [fuzz_row]"
  by (simp add: get_bom_def fuzz_row_def)

text \<open>
  C7: the export is the header line \<open>Type,Value,Quantity,Reference Designators,Critical,Confidence\<close>
  followed by one line for each BOM item, joined by newlines; a line holds the type, the
  value, the quantity, the reference designators in double quotes, \<open>Yes\<close> or \<open>No\<close> for
  \<open>is_critical\<close>, and the confidence with two digits after the point, rounded to the
  nearest hundredth; for an empty BOM the export is the header alone, without a newline.
\<close>

theorem export_bom_csv_spec:
  "export_bom_csv tbl cid =
     py_join [newline]
       (''Type,Value,Quantity,Reference Designators,Critical,Confidence'' #
        map (\<lambda>b. component_type b @ '','' @ component_value b @ '','' @ str_int (quantity b)
                  @ '','' @ [dquote]
                  @ (case reference_designator b of None \<Rightarrow> [] | Some r \<Rightarrow> r)
                  @ [dquote] @ '','' @ (if is_critical b then ''Yes'' else ''No'') @ '',''
                  @ format_2f (confidence_score b))
          (get_bom tbl cid))
   \<and> (\<exists>n. format_2f x =
             (if x < 0 then ''-'' else []) @ str_nat (n div 100) @ ''.''
             @ [digit_char (n mod 100 div 10), digit_char (n mod 10)]
          \<and> \<bar>of_nat n - \<bar>x\<bar> * 100\<bar> \<le> 1 / 2)
   \<and> (get_bom tbl cid = [] \<longrightarrow>
        export_bom_csv tbl cid = ''Type,Value,Quantity,Reference Designators,Critical,Confidence''
        \<and> count_list (export_bom_csv tbl cid) newline = 0)"
proof (intro conjI impI)
  show "export_bom_csv tbl cid =
     py_join [newline]
       (''Type,Value,Quantity,Reference Designators,Critical,Confidence'' #
        map (\<lambda>b. component_type b @ '','' @ component_value b @ '','' @ str_int (quantity b)
                  @ '','' @ [dquote]
                  @ (case reference_designator b of None \<Rightarrow> [] | Some r \<Rightarrow> r)
                  @ [dquote] @ '','' @ (if is_critical b then ''Yes'' else ''No'') @ '',''
                  @ format_2f (confidence_score b))
          (get_bom tbl cid))"
    unfolding export_bom_csv_eq csv_header_def csv_line_def by (rule refl)
  show "\<exists>n. format_2f x =
             (if x < 0 then ''-'' else []) @ str_nat (n div 100) @ ''.''
             @ [digit_char (n mod 100 div 10), digit_char (n mod 10)]
          \<and> \<bar>of_nat n - \<bar>x\<bar> * 100\<bar> \<le> 1 / 2"
  proof -
    let ?n = "nat (round_half_even (\<bar>x\<bar> * 100))"
    have "0 \<le> round_half_even (\<bar>x\<bar> * 100)"
      by (rule round_half_even_nonneg) simp
    then have "(of_nat ?n :: rat) = of_int (round_half_even (\<bar>x\<bar> * 100))"
      by simp
    with round_half_even_near [of "\<bar>x\<bar> * 100"]
    have "\<bar>of_nat ?n - \<bar>x\<bar> * 100\<bar> \<le> 1 / 2" by simp
    moreover have "format_2f x =
             (if x < 0 then ''-'' else []) @ str_nat (?n div 100) @ ''.''
             @ [digit_char (?n mod 100 div 10), digit_char (?n mod 10)]"
      by (simp add: format_2f_def Let_def)
    ultimately show ?thesis by blast
  qed
next
  assume e: "get_bom tbl cid = []"
  then show "export_bom_csv tbl cid = ''Type,Value,Quantity,Reference Designators,Critical,Confidence''"
    by (simp add: export_bom_csv_eq csv_header_def)
  from e show "count_list (export_bom_csv tbl cid) newline = 0"
    using csv_header_no_newline by (simp add: export_bom_csv_eq)
qed

theorem export_bom_csv_spec_witness:
  "get_bom [fuzz_row] ''none'' = []
   \<and> export_bom_csv [fuzz_row] ''none''
       = ''Type,Value,Quantity,Reference Designators,Critical,Confidence''
   \<and> export_bom_csv [fuzz_row] ''fuzz''
       = ''Type,Value,Quantity,Reference Designators,Critical,Confidence'' @ [newline]
         @ ''resistor,10k,2,'' @ [dquote] @ ''R1,R2'' @ [dquote] @ '',No,1.00''"
proof -
  have e: "get_bom [fuzz_row] ''none'' = []"
    by (simp add: get_bom_def fuzz_row_def)
  from export_bom_csv_spec [of "[fuzz_row]" "''none''" 1] e
  have 1: "export_bom_csv [fuzz_row] ''none''
       = ''Type,Value,Quantity,Reference Designators,Critical,Confidence''"
    by blast
  from export_bom_csv_spec [of "[fuzz_row]" "''fuzz''" 1]
  have "export_bom_csv [fuzz_row] ''fuzz'' =
     py_join [newline]
       (''Type,Value,Quantity,Reference Designators,Critical,Confidence'' #
        map (\<lambda>b. component_type b @ '','' @ component_value b @ '','' @ str_int (quantity b)
                  @ '','' @ [dquote]
                  @ (case reference_designator b of None \<Rightarrow> [] | Some r \<Rightarrow> r)
                  @ [dquote] @ '','' @ (if is_critical b then ''Yes'' else ''No'') @ '',''
                  @ format_2f (confidence_score b))
          (get_bom [fuzz_row] ''fuzz''))"
    by blast
  then have 2: "export_bom_csv [fuzz_row] ''fuzz''
       = ''Type,Value,Quantity,Reference Designators,Critical,Confidence'' @ [newline]
         @ ''resistor,10k,2,'' @ [dquote] @ ''R1,R2'' @ [dquote] @ '',No,1.00''"
    using csv_line_fuzz_row by (simp add: get_bom_fuzz_only csv_line_def)
  from e 1 2 show ?thesis by simp
qed

section \<open>The export route\<close>

lemma export_bom_csv_nonempty: "export_bom_csv tbl cid \<noteq> []"
  by (simp add: export_bom_csv_eq py_join_Cons csv_header_def)

text \<open>
  C10: the export route answers 404 exactly when the exported text holds at most one
  newline: for an empty BOM, and also for a BOM of one item (whose text fields hold no
  newline), where the service produced the header and one data line.
\<close>

theorem export_bom_csv_route_spec:
  "export_bom_csv_route tbl cid =
     (if count_list (export_bom_csv tbl cid) newline \<le> 1
      then Inl (HTTP_404 (''No BOM found for circuit: '' @ cid))
      else Inr (export_bom_csv tbl cid))
   \<and> (get_bom tbl cid = [] \<longrightarrow>
        export_bom_csv_route tbl cid = Inl (HTTP_404 (''No BOM found for circuit: '' @ cid)))
   \<and> (get_bom tbl cid = [b] \<and> newline \<notin> set (component_type b)
        \<and> newline \<notin> set (component_value b)
        \<and> newline \<notin> set (case reference_designator b of None \<Rightarrow> [] | Some r \<Rightarrow> r) \<longrightarrow>
        export_bom_csv tbl cid = csv_header @ [newline] @ csv_line b
        \<and> count_list (export_bom_csv tbl cid) newline = 1
        \<and> export_bom_csv_route tbl cid = Inl (HTTP_404 (''No BOM found for circuit: '' @ cid)))"
proof (intro conjI impI)
  show r: "export_bom_csv_route tbl cid =
     (if count_list (export_bom_csv tbl cid) newline \<le> 1
      then Inl (HTTP_404 (''No BOM found for circuit: '' @ cid))
      else Inr (export_bom_csv tbl cid))"
    by (simp add: export_bom_csv_route_def Let_def export_bom_csv_nonempty)
  {
    assume "get_bom tbl cid = []"
    then have "count_list (export_bom_csv tbl cid) newline = 0"
      using csv_header_no_newline by (simp add: export_bom_csv_eq)
    with r show "export_bom_csv_route tbl cid = Inl (HTTP_404 (''No BOM found for circuit: '' @ cid))"
      by simp
  }
  assume a: "get_bom tbl cid = [b] \<and> newline \<notin> set (component_type b)
        \<and> newline \<notin> set (component_value b)
        \<and> newline \<notin> set (case reference_designator b of None \<Rightarrow> [] | Some r \<Rightarrow> r)"
  then show e: "export_bom_csv tbl cid = csv_header @ [newline] @ csv_line b"
    by (simp add: export_bom_csv_eq)
  from a have "newline \<notin> set (csv_line b)"
    by (intro csv_line_no_newline) simp_all
  with e csv_header_no_newline show c: "count_list (export_bom_csv tbl cid) newline = 1"
    by simp
  with r show "export_bom_csv_route tbl cid = Inl (HTTP_404 (''No BOM found for circuit: '' @ cid))"
    by simp
qed

theorem export_bom_csv_route_spec_witness:
  "get_bom [fuzz_row] ''fuzz'' = [fuzz_row]
   \<and> newline \<notin> set (component_type fuzz_row) \<and> newline \<notin> set (component_value fuzz_row)
   \<and> newline \<notin> set (case reference_designator fuzz_row of None \<Rightarrow> [] | Some r \<Rightarrow> r)
   \<and> export_bom_csv [fuzz_row] ''fuzz''
       = ''Type,Value,Quantity,Reference Designators,Critical,Confidence'' @ [newline]
         @ ''resistor,10k,2,'' @ [dquote] @ ''R1,R2'' @ [dquote] @ '',No,1.00''
   \<and> export_bom_csv_route [fuzz_row] ''fuzz'' = Inl (HTTP_404 ''No BOM found for circuit: fuzz'')
   \<and> get_bom [fuzz_row] ''none'' = []
   \<and> export_bom_csv_route [fuzz_row] ''none'' = Inl (HTTP_404 ''No BOM found for circuit: none'')"
proof -
  have h: "get_bom [fuzz_row] ''fuzz'' = [fuzz_row] \<and> newline \<notin> set (component_type fuzz_row)
        \<and> newline \<notin> set (component_value fuzz_row)
        \<and> newline \<notin> set (case reference_designator fuzz_row of None \<Rightarrow> [] | Some r \<Rightarrow> r)"
    by (simp add: get_bom_fuzz_only) (simp add: fuzz_row_def newline_def)
  have e: "get_bom [fuzz_row] ''none'' = []"
    by (simp add: get_bom_def fuzz_row_def)
  from export_bom_csv_route_spec [of "[fuzz_row]" "''fuzz''" fuzz_row] h
  have 1: "export_bom_csv [fuzz_row] ''fuzz'' = csv_header @ [newline] @ csv_line fuzz_row"
    and 2: "export_bom_csv_route [fuzz_row] ''fuzz''
              = Inl (HTTP_404 (''No BOM found for circuit: '' @ ''fuzz''))"
    by blast+
  from export_bom_csv_route_spec [of "[fuzz_row]" "''none''" fuzz_row] e
  have 3: "export_bom_csv_route [fuzz_row] ''none''
              = Inl (HTTP_404 (''No BOM found for circuit: '' @ ''none''))"
    by blast
  from 1 have 4: "export_bom_csv [fuzz_row] ''fuzz''
       = ''Type,Value,Quantity,Reference Designators,Critical,Confidence'' @ [newline]
         @ ''resistor,10k,2,'' @ [dquote] @ ''R1,R2'' @ [dquote] @ '',No,1.00''"
    by (simp add: csv_header_def csv_line_fuzz_row)
  from h e 2 3 4 show ?thesis by simp
qed

section \<open>Component search\<close>

lemma like_match_any: "like_match ''%'' s"
  by (induction s) simp_all

lemma like_match_percent:
  "like_match (CHR ''%'' # ps) s \<longleftrightarrow> (\<exists>pre u. s = pre @ u \<and> like_match ps u)"
proof (induction s)
  case Nil
  show ?case by simp
next
  case (Cons c s)
  have "(\<exists>pre u. c # s = pre @ u \<and> like_match ps u)
        \<longleftrightarrow> like_match ps (c # s) \<or> (\<exists>pre u. s = pre @ u \<and> like_match ps u)"
    (is "?L \<longleftrightarrow> ?R")
  proof
    assume ?L
    then obtain pre u where pu: "c # s = pre @ u" "like_match ps u" by blast
    show ?R
    proof (cases pre)
      case Nil
      with pu show ?thesis by simp
    next
      case (Cons a pre')
      with pu have "s = pre' @ u" by simp
      with pu(2) show ?thesis by blast
    qed
  next
    assume ?R
    then show ?L
    proof
      assume "like_match ps (c # s)"
      then have "c # s = [] @ (c # s) \<and> like_match ps (c # s)" by simp
      then show ?L by blast
    next
      assume "\<exists>pre u. s = pre @ u \<and> like_match ps u"
      then obtain pre u where "s = pre @ u" "like_match ps u" by blast
      then have "c # s = (c # pre) @ u \<and> like_match ps u" by simp
      then show ?L by blast
    qed
  qed
  with Cons.IH show ?case by simp
qed

lemma like_match_literal:
  assumes "CHR ''%'' \<notin> set q" "CHR ''_'' \<notin> set q"
  shows "like_match (q @ ps) s
         \<longleftrightarrow> (\<exists>t u. s = t @ u \<and> same_nocase t q \<and> like_match ps u)"
  using assms
proof (induction q arbitrary: s)
  case Nil
  show ?case by (simp add: same_nocase_def)
next
  case (Cons a q)
  then have a: "a \<noteq> CHR ''%''" "a \<noteq> CHR ''_''"
    and IH: "\<And>s. like_match (q @ ps) s
                \<longleftrightarrow> (\<exists>t u. s = t @ u \<and> same_nocase t q \<and> like_match ps u)"
    by auto
  show ?case
  proof (cases s)
    case Nil
    with a show ?thesis by (auto simp: same_nocase_def)
  next
    case (Cons c s')
    have "(\<exists>t u. c # s' = t @ u \<and> same_nocase t (a # q) \<and> like_match ps u)
          \<longleftrightarrow> lower_char a = lower_char c
              \<and> (\<exists>t u. s' = t @ u \<and> same_nocase t q \<and> like_match ps u)"
      (is "?L \<longleftrightarrow> ?R")
    proof
      assume ?L
      then obtain t u where tu: "c # s' = t @ u" "same_nocase t (a # q)" "like_match ps u"
        by blast
      from tu(2) obtain c' t' where t: "t = c' # t'"
        by (cases t) (auto simp: same_nocase_def)
      with tu have "c' = c" "s' = t' @ u" "lower_char a = lower_char c" "same_nocase t' q"
        by (auto simp: same_nocase_def)
      with tu(3) show ?R by blast
    next
      assume ?R
      then obtain t u where "lower_char a = lower_char c" "s' = t @ u" "same_nocase t q"
        "like_match ps u" by blast
      then have "c # s' = (c # t) @ u \<and> same_nocase (c # t) (a # q) \<and> like_match ps u"
        by (simp add: same_nocase_def)
      then show ?L by blast
    qed
    with Cons a IH [of s'] show ?thesis by simp
  qed
qed

lemma like_prefix:
  assumes "CHR ''%'' \<notin> set q" "CHR ''_'' \<notin> set q"
  shows "like_match (q @ ''%'') s \<longleftrightarrow> (\<exists>t u. s = t @ u \<and> same_nocase t q)"
  using like_match_literal [OF assms, of "''%''" s] by (simp add: like_match_any)

lemma like_contains:
  assumes "CHR ''%'' \<notin> set q" "CHR ''_'' \<notin> set q"
  shows "like_match (''%'' @ q @ ''%'') s
         \<longleftrightarrow> (\<exists>pre t post. s = pre @ t @ post \<and> same_nocase t q)"
proof -
  have "like_match (''%'' @ q @ ''%'') s
        \<longleftrightarrow> (\<exists>pre u. s = pre @ u \<and> like_match (q @ ''%'') u)"
    using like_match_percent [of "q @ ''%''" s] by simp
  also have "\<dots> \<longleftrightarrow> (\<exists>pre u. s = pre @ u \<and> (\<exists>t post. u = t @ post \<and> same_nocase t q))"
    by (simp only: like_prefix [OF assms])
  also have "\<dots> \<longleftrightarrow> (\<exists>pre t post. s = pre @ t @ post \<and> same_nocase t q)"
    by blast
  finally show ?thesis .
qed

lemma search_components_set:
  "set (search_components tbl q) =
     {c \<in> set tbl. sql_like (comp_value c) (''%'' @ q @ ''%'')
                   \<or> sql_like (Some (comp_name c)) (''%'' @ q @ ''%'')
                   \<or> sql_like (part_number c) (''%'' @ q @ ''%'')}"
  by (simp add: search_components_def Let_def)

lemma search_components_sorted:
  "sorted (map (\<lambda>c. (search_rank q c, comp_type c, comp_value c)) (search_components tbl q))"
  by (simp add: search_components_def Let_def sorted_sort_key)

lemma search_components_stable:
  "filter (\<lambda>c. (search_rank q c, comp_type c, comp_value c) = k) (search_components tbl q) =
     filter (\<lambda>c. (search_rank q c, comp_type c, comp_value c) = k
                  \<and> (sql_like (comp_value c) (''%'' @ q @ ''%'')
                      \<or> sql_like (Some (comp_name c)) (''%'' @ q @ ''%'')
                      \<or> sql_like (part_number c) (''%'' @ q @ ''%''))) tbl"
  unfolding search_components_def Let_def sort_key_stable filter_filter
  by (rule filter_cong) auto

lemma search_wildcard: "search_components [stock_row] ''1_k'' = [stock_row]"
  by (simp add: search_components_def stock_row_def sql_like_def lower_char_def)

text \<open>
  C4, as stated: the components returned are exactly those whose value, name or part
  number contains the query as a substring. For the query \<open>1_k\<close> the 10k resistor is
  returned, and none of its value, name and part number contains \<open>1_k\<close>.
\<close>

theorem search_components_counterexample:
  "search_components [stock_row] ''1_k'' = [stock_row]
   \<and> \<not> spec_found ''1_k'' stock_row
   \<and> comp_value stock_row = Some ''10k''
   \<and> comp_name stock_row = ''Metal Film 10k''
   \<and> part_number stock_row = None"
  by (simp add: search_wildcard) (simp add: spec_found_def stock_row_def)

text \<open>
  C4, amended: \<open>search_components\<close> returns exactly the components whose value, name or
  part number is \<open>LIKE %query%\<close>, each as often as the table holds it, ordered by the
  four-tier rank (value equal to the query; else value \<open>LIKE query%\<close>; else name
  \<open>LIKE query%\<close>; else the rest) and within a tier by type, then value. In a
  query, \<open>%\<close> and \<open>_\<close> are wildcards; for a query without them, \<open>LIKE %query%\<close>
  holds of the texts that contain the query as a substring up to the case of ASCII
  letters, and \<open>LIKE query%\<close> of the texts that start with it up to that case.
\<close>

theorem search_components_amended:
  "set (search_components tbl q) =
     {c \<in> set tbl. sql_like (comp_value c) (''%'' @ q @ ''%'')
                   \<or> sql_like (Some (comp_name c)) (''%'' @ q @ ''%'')
                   \<or> sql_like (part_number c) (''%'' @ q @ ''%'')}
   \<and> filter (\<lambda>c. (search_rank q c, comp_type c, comp_value c) = k) (search_components tbl q) =
       filter (\<lambda>c. (search_rank q c, comp_type c, comp_value c) = k
                  \<and> (sql_like (comp_value c) (''%'' @ q @ ''%'')
                      \<or> sql_like (Some (comp_name c)) (''%'' @ q @ ''%'')
                      \<or> sql_like (part_number c) (''%'' @ q @ ''%''))) tbl
   \<and> sorted (map (\<lambda>c. (search_rank q c, comp_type c, comp_value c)) (search_components tbl q))
   \<and> search_rank q c =
       (if comp_value c = Some q then 1
        else if sql_like (comp_value c) (q @ ''%'') then 2
        else if sql_like (Some (comp_name c)) (q @ ''%'') then 3
        else 4)
   \<and> (CHR ''%'' \<notin> set q \<and> CHR ''_'' \<notin> set q \<longrightarrow>
        sql_like (Some s) (''%'' @ q @ ''%'')
          = (\<exists>pre t post. s = pre @ t @ post \<and> same_nocase t q)
        \<and> sql_like (Some s) (q @ ''%'') = (\<exists>t post. s = t @ post \<and> same_nocase t q))
   \<and> \<not> sql_like None p"
proof (intro conjI impI)
  show "set (search_components tbl q) =
     {c \<in> set tbl. sql_like (comp_value c) (''%'' @ q @ ''%'')
                   \<or> sql_like (Some (comp_name c)) (''%'' @ q @ ''%'')
                   \<or> sql_like (part_number c) (''%'' @ q @ ''%'')}"
    by (rule search_components_set)
  show "filter (\<lambda>c. (search_rank q c, comp_type c, comp_value c) = k) (search_components tbl q) =
       filter (\<lambda>c. (search_rank q c, comp_type c, comp_value c) = k
                  \<and> (sql_like (comp_value c) (''%'' @ q @ ''%'')
                      \<or> sql_like (Some (comp_name c)) (''%'' @ q @ ''%'')
                      \<or> sql_like (part_number c) (''%'' @ q @ ''%''))) tbl"
    by (rule search_components_stable)
  show "sorted (map (\<lambda>c. (search_rank q c, comp_type c, comp_value c)) (search_components tbl q))"
    by (rule search_components_sorted)
  show "search_rank q c =
       (if comp_value c = Some q then 1
        else if sql_like (comp_value c) (q @ ''%'') then 2
        else if sql_like (Some (comp_name c)) (q @ ''%'') then 3
        else 4)"
    by (simp add: search_rank_def)
  show "\<not> sql_like None p"
    by (simp add: sql_like_def)
next
  assume w: "CHR ''%'' \<notin> set q \<and> CHR ''_'' \<notin> set q"
  then show "sql_like (Some s) (''%'' @ q @ ''%'')
          = (\<exists>pre t post. s = pre @ t @ post \<and> same_nocase t q)"
    using like_contains [of q s] by (simp add: sql_like_def)
  from w show "sql_like (Some s) (q @ ''%'') = (\<exists>t post. s = t @ post \<and> same_nocase t q)"
    using like_prefix [of q s] by (simp add: sql_like_def)
qed

lemma search_tiers:
  "search_components [other_row, name_row, prefix_row, stock_row] ''10k''
     = [stock_row, prefix_row, name_row, other_row]"
  by (simp add: search_components_def search_rank_def other_row_def name_row_def prefix_row_def
      stock_row_def sql_like_def lower_char_def)

theorem search_components_amended_witness:
  "CHR ''%'' \<notin> set ''10k'' \<and> CHR ''_'' \<notin> set ''10k''
   \<and> search_components [other_row, name_row, prefix_row, stock_row] ''10k''
       = [stock_row, prefix_row, name_row, other_row]
   \<and> map (search_rank ''10k'') [stock_row, prefix_row, name_row, other_row] = [1, 2, 3, 4]
   \<and> sql_like (Some ''Carbon 510k'') ''%10k%''
   \<and> same_nocase ''10K'' ''10k''
   \<and> sql_like (Some ''10K linear pot'') ''10k%''"
proof -
  have w: "CHR ''%'' \<notin> set ''10k'' \<and> CHR ''_'' \<notin> set ''10k''" by simp
  have n: "same_nocase ''10K'' ''10k''" "same_nocase ''10k'' ''10k''"
    by (simp_all add: same_nocase_def lower_char_def)
  have "''Carbon 510k'' = ''Carbon 5'' @ ''10k'' @ [] \<and> same_nocase ''10k'' ''10k''"
    using n by simp
  then have "\<exists>pre t post. ''Carbon 510k'' = pre @ t @ post \<and> same_nocase t ''10k''"
    by blast
  with search_components_amended [of "[other_row, name_row, prefix_row, stock_row]" "''10k''"
      "(1, ''resistor'', Some ''10k'')" stock_row "''Carbon 510k''"] w
  have 1: "sql_like (Some ''Carbon 510k'') ''%10k%''" by simp
  have "''10K linear pot'' = ''10K'' @ '' linear pot'' \<and> same_nocase ''10K'' ''10k''"
    using n by simp
  then have "\<exists>t post. ''10K linear pot'' = t @ post \<and> same_nocase t ''10k''"
    by blast
  with search_components_amended [of "[other_row, name_row, prefix_row, stock_row]" "''10k''"
      "(1, ''resistor'', Some ''10k'')" stock_row "''10K linear pot''"] w
  have 2: "sql_like (Some ''10K linear pot'') ''10k%''" by simp
  have 3: "map (search_rank ''10k'') [stock_row, prefix_row, name_row, other_row] = [1, 2, 3, 4]"
    by (simp add: search_rank_def other_row_def name_row_def prefix_row_def
      stock_row_def sql_like_def lower_char_def)
  from w 1 2 3 n(1) search_tiers show ?thesis by simp
qed

end
